theory Spec2Isabelle
  imports Complex_Main
begin

section \<open>JavaScript numbers\<close>

text \<open>
  The client computes with JavaScript numbers, IEEE 754 binary64 values. A number is a
  finite double, written \<open>Fin x\<close> with its real value \<open>x\<close>, or Infinity,
  -Infinity or NaN. Every arithmetic operation returns the exact real result rounded to
  the nearest double, ties to the even significand, and Infinity where the rounded
  result leaves the range.

  The two zeros +0 and -0 are one value \<open>Fin 0\<close>. The comparisons and
  \<^verbatim>\<open>!==\<close> do not tell them apart; the sign of a zero shows only in the sign of
  the infinity that a division by it gives, and the code modelled here divides by a
  square root, which is never -0, by the constant 2, by differences of constants, and by
  maxSpeed, where it takes the absolute value of the quotient.

  Console logging has no effect on the state and is left out.
\<close>

datatype number = Fin real | PosInf | NegInf | NaN

text \<open>
  Rounding. For a positive real \<open>x\<close> the exponent is that of the binade of
  \<open>x\<close>, not below -1022 (smaller numbers are subnormal), the unit in the last place
  is 2 to the exponent minus 52, and \<open>x\<close> is rounded to the nearest multiple of that
  unit. A negative number is rounded as its absolute value is.
\<close>

definition expo :: "real \<Rightarrow> int" where
  "expo x = max \<lfloor>log 2 x\<rfloor> (- 1022)"

definition ulp :: "real \<Rightarrow> real" where
  "ulp x = 2 powr (real_of_int (expo x) - 52)"

definition roundHalfEven :: "real \<Rightarrow> int" where
  "roundHalfEven q =
     (let f = \<lfloor>q\<rfloor>; d = q - of_int f
      in if d < 1 / 2 then f else if d > 1 / 2 then f + 1 else if even f then f else f + 1)"

definition roundPos :: "real \<Rightarrow> real" where
  "roundPos x = ulp x * of_int (roundHalfEven (x / ulp x))"

definition rnd :: "real \<Rightarrow> real" where
  "rnd x = (if x > 0 then roundPos x else if x < 0 then - roundPos (- x) else 0)"

definition maxBound :: real where
  "maxBound = 2 powr 1024"

definition fl :: "real \<Rightarrow> number" where
  "fl x = (if rnd x \<ge> maxBound then PosInf
           else if rnd x \<le> - maxBound then NegInf
           else Fin (rnd x))"

text \<open>
The order of numbers, \<^verbatim>\<open><=\<close>: NaN is comparable with nothing.
\<close>

fun atmost :: "number \<Rightarrow> number \<Rightarrow> bool" where
  "atmost NaN _ = False"
| "atmost _ NaN = False"
| "atmost NegInf _ = True"
| "atmost _ PosInf = True"
| "atmost (Fin x) (Fin y) = (x \<le> y)"
| "atmost _ _ = False"

text \<open>
  The operators and Math functions the code uses. A product or quotient of an infinity
  takes its sign from the signs of both operands; Infinity - Infinity, Infinity * 0,
  0 / 0 and Infinity / Infinity are NaN; Math.min and Math.max return NaN when an
  argument is NaN; Math.sqrt is the correctly rounded square root. A decimal literal
  denotes the double nearest to it.
\<close>

fun jneg :: "number \<Rightarrow> number" where
  "jneg (Fin x) = Fin (- x)"
| "jneg PosInf = NegInf"
| "jneg NegInf = PosInf"
| "jneg NaN = NaN"

fun jabs :: "number \<Rightarrow> number" where
  "jabs (Fin x) = Fin \<bar>x\<bar>"
| "jabs PosInf = PosInf"
| "jabs NegInf = PosInf"
| "jabs NaN = NaN"

fun positive :: "number \<Rightarrow> bool" where
  "positive (Fin x) = (0 \<le> x)"
| "positive PosInf = True"
| "positive _ = False"

fun jadd :: "number \<Rightarrow> number \<Rightarrow> number" where
  "jadd (Fin x) (Fin y) = fl (x + y)"
| "jadd NaN _ = NaN"
| "jadd _ NaN = NaN"
| "jadd PosInf NegInf = NaN"
| "jadd NegInf PosInf = NaN"
| "jadd PosInf _ = PosInf"
| "jadd _ PosInf = PosInf"
| "jadd NegInf _ = NegInf"
| "jadd _ NegInf = NegInf"

definition jsub :: "number \<Rightarrow> number \<Rightarrow> number" where
  "jsub a b = jadd a (jneg b)"

fun jmul :: "number \<Rightarrow> number \<Rightarrow> number" where
  "jmul (Fin x) (Fin y) = fl (x * y)"
| "jmul NaN _ = NaN"
| "jmul _ NaN = NaN"
| "jmul a b =
     (if a = Fin 0 \<or> b = Fin 0 then NaN
      else if positive a = positive b then PosInf else NegInf)"

fun jdiv :: "number \<Rightarrow> number \<Rightarrow> number" where
  "jdiv (Fin x) (Fin y) =
     (if y = 0 then (if x = 0 then NaN else if 0 < x then PosInf else NegInf)
      else fl (x / y))"
| "jdiv NaN _ = NaN"
| "jdiv _ NaN = NaN"
| "jdiv (Fin x) _ = Fin 0"
| "jdiv a (Fin y) = (if positive a = (0 \<le> y) then PosInf else NegInf)"
| "jdiv _ _ = NaN"



definition jmin :: "number \<Rightarrow> number \<Rightarrow> number" where
  "jmin a b = (if a = NaN \<or> b = NaN then NaN else if atmost a b then a else b)"

definition jmax :: "number \<Rightarrow> number \<Rightarrow> number" where
  "jmax a b = (if a = NaN \<or> b = NaN then NaN else if atmost a b then b else a)"

definition jlt :: "number \<Rightarrow> number \<Rightarrow> bool" where
  "jlt a b = (atmost a b \<and> a \<noteq> b)"

definition jgt :: "number \<Rightarrow> number \<Rightarrow> bool" where
  "jgt a b = jlt b a"

definition jge :: "number \<Rightarrow> number \<Rightarrow> bool" where
  "jge a b = atmost b a"

definition jneq :: "number \<Rightarrow> number \<Rightarrow> bool" where
  "jneq a b = (a = NaN \<or> b = NaN \<or> a \<noteq> b)"

definition lit :: "real \<Rightarrow> number" where
  "lit x = fl x"

text \<open>
Math.PI, the double 3.141592653589793.
\<close>

definition MATH_PI :: number where
  "MATH_PI = Fin (884279719003555 / 2 ^ 48)"

text \<open>
  Math.sin and Math.cos are implementation-approximated in ECMAScript, so update below
  takes them as arguments. The correctly rounded functions are one admissible choice and
  serve in the examples.
\<close>

fun Math_sin :: "number \<Rightarrow> number" where
  "Math_sin (Fin x) = fl (sin x)"
| "Math_sin _ = NaN"

fun Math_cos :: "number \<Rightarrow> number" where
  "Math_cos (Fin x) = fl (cos x)"
| "Math_cos _ = NaN"

text \<open>
  The real value of a finite number, what it is to be a finite double, and to be finite
  with a magnitude within a bound.
\<close>

definition val :: "number \<Rightarrow> real" where
  "val a = (case a of Fin x \<Rightarrow> x | _ \<Rightarrow> 0)"

definition isDouble :: "number \<Rightarrow> bool" where
  "isDouble a = (case a of Fin x \<Rightarrow> rnd x = x \<and> \<bar>x\<bar> < maxBound | _ \<Rightarrow> False)"

definition magnitudeAtMost :: "number \<Rightarrow> real \<Rightarrow> bool" where
  "magnitudeAtMost a bound = (case a of Fin x \<Rightarrow> \<bar>x\<bar> \<le> bound | _ \<Rightarrow> False)"

section \<open>Ship.ts: naval speed and rudder settings\<close>

text \<open>
The Vector2 of the client: two numbers.
\<close>

record Vector2n =
  num_x :: number
  num_y :: number

datatype NavalSpeed =
  FULL_REVERSE | HALF_REVERSE | FULL_STOP | DEAD_SLOW | SLOW | HALF | FULL

fun NavalSpeed_value :: "NavalSpeed \<Rightarrow> number" where
  "NavalSpeed_value FULL_REVERSE = jneg (lit (6 / 10))"
| "NavalSpeed_value HALF_REVERSE = jneg (lit (3 / 10))"
| "NavalSpeed_value FULL_STOP = Fin 0"
| "NavalSpeed_value DEAD_SLOW = lit (2 / 10)"
| "NavalSpeed_value SLOW = lit (4 / 10)"
| "NavalSpeed_value HALF = lit (7 / 10)"
| "NavalSpeed_value FULL = Fin 1"

datatype RudderSetting =
  HARD_PORT | HALF_PORT | MIDSHIPS | HALF_STARBOARD | HARD_STARBOARD

fun RudderSetting_value :: "RudderSetting \<Rightarrow> number" where
  "RudderSetting_value HARD_PORT = Fin (- 1)"
| "RudderSetting_value HALF_PORT = Fin (- (1 / 2))"
| "RudderSetting_value MIDSHIPS = Fin 0"
| "RudderSetting_value HALF_STARBOARD = Fin (1 / 2)"
| "RudderSetting_value HARD_STARBOARD = Fin 1"

record Ship =
  position :: Vector2n
  rotation :: number
  scale :: Vector2n
  velocity :: Vector2n
  currentSpeed :: number
  maxSpeed :: number
  rotationSpeed :: number
  acceleration :: number
  health :: number
  name :: string
  targetSpeedSetting :: NavalSpeed
  targetSpeed :: number
  rudderSetting :: RudderSetting
  color :: string
  width :: number
  height :: number

definition MIN_TURN_FACTOR :: number where "MIN_TURN_FACTOR = lit (2 / 10)"

definition MAX_TURN_FACTOR :: number where "MAX_TURN_FACTOR = Fin 1"

definition OPTIMAL_TURN_SPEED :: number where "OPTIMAL_TURN_SPEED = lit (6 / 10)"

definition MIN_SPEED_FOR_TURNING :: number where "MIN_SPEED_FOR_TURNING = lit (5 / 100)"

definition setSpeedSetting :: "Ship \<Rightarrow> NavalSpeed \<Rightarrow> Ship" where
  "setSpeedSetting ship setting = ship\<lparr>targetSpeedSetting := setting\<rparr>"

definition increaseSpeedSetting :: "Ship \<Rightarrow> Ship" where
  "increaseSpeedSetting ship =
     (case targetSpeedSetting ship of
        FULL_REVERSE \<Rightarrow> setSpeedSetting ship HALF_REVERSE
      | HALF_REVERSE \<Rightarrow> setSpeedSetting ship FULL_STOP
      | FULL_STOP \<Rightarrow> setSpeedSetting ship DEAD_SLOW
      | DEAD_SLOW \<Rightarrow> setSpeedSetting ship SLOW
      | SLOW \<Rightarrow> setSpeedSetting ship HALF
      | HALF \<Rightarrow> setSpeedSetting ship FULL
      | FULL \<Rightarrow> ship)"

definition decreaseSpeedSetting :: "Ship \<Rightarrow> Ship" where
  "decreaseSpeedSetting ship =
     (case targetSpeedSetting ship of
        FULL \<Rightarrow> setSpeedSetting ship HALF
      | HALF \<Rightarrow> setSpeedSetting ship SLOW
      | SLOW \<Rightarrow> setSpeedSetting ship DEAD_SLOW
      | DEAD_SLOW \<Rightarrow> setSpeedSetting ship FULL_STOP
      | FULL_STOP \<Rightarrow> setSpeedSetting ship HALF_REVERSE
      | HALF_REVERSE \<Rightarrow> setSpeedSetting ship FULL_REVERSE
      | FULL_REVERSE \<Rightarrow> ship)"

definition setRudderSetting :: "Ship \<Rightarrow> RudderSetting \<Rightarrow> Ship" where
  "setRudderSetting ship setting = ship\<lparr>rudderSetting := setting\<rparr>"

definition turnRudderPort :: "Ship \<Rightarrow> Ship" where
  "turnRudderPort ship =
     (case rudderSetting ship of
        HARD_STARBOARD \<Rightarrow> setRudderSetting ship HALF_STARBOARD
      | HALF_STARBOARD \<Rightarrow> setRudderSetting ship MIDSHIPS
      | MIDSHIPS \<Rightarrow> setRudderSetting ship HALF_PORT
      | HALF_PORT \<Rightarrow> setRudderSetting ship HARD_PORT
      | HARD_PORT \<Rightarrow> ship)"

definition turnRudderStarboard :: "Ship \<Rightarrow> Ship" where
  "turnRudderStarboard ship =
     (case rudderSetting ship of
        HARD_PORT \<Rightarrow> setRudderSetting ship HALF_PORT
      | HALF_PORT \<Rightarrow> setRudderSetting ship MIDSHIPS
      | MIDSHIPS \<Rightarrow> setRudderSetting ship HALF_STARBOARD
      | HALF_STARBOARD \<Rightarrow> setRudderSetting ship HARD_STARBOARD
      | HARD_STARBOARD \<Rightarrow> ship)"

text \<open>
  The ship the game engine creates for the local player (GameEngine.ts, the constructor),
  with the field initialisers of the Ship class; the colour is the first of the five the
  constructor draws from. It serves as the concrete input of the examples below.
\<close>

definition playerShip :: Ship where
  "playerShip =
     \<lparr> position = \<lparr>num_x = Fin 0, num_y = Fin 0\<rparr>, rotation = Fin 0,
       scale = \<lparr>num_x = Fin 1, num_y = Fin 1\<rparr>,
       velocity = \<lparr>num_x = Fin 0, num_y = Fin 0\<rparr>,
       currentSpeed = Fin 0, maxSpeed = Fin 60, rotationSpeed = lit (15 / 100),
       acceleration = Fin 2, health = Fin 100, name = ''Captain'',
       targetSpeedSetting = FULL_STOP, targetSpeed = Fin 0,
       rudderSetting = MIDSHIPS, color = ''#FF3366'', width = Fin 40, height = Fin 80 \<rparr>"

text \<open>
The ordered ladders of the two controls, from the lowest setting to the highest.
\<close>

definition speedLadder :: "NavalSpeed list" where
  "speedLadder = [FULL_REVERSE, HALF_REVERSE, FULL_STOP, DEAD_SLOW, SLOW, HALF, FULL]"

fun speedRank :: "NavalSpeed \<Rightarrow> nat" where
  "speedRank FULL_REVERSE = 0"
| "speedRank HALF_REVERSE = 1"
| "speedRank FULL_STOP = 2"
| "speedRank DEAD_SLOW = 3"
| "speedRank SLOW = 4"
| "speedRank HALF = 5"
| "speedRank FULL = 6"

definition rudderLadder :: "RudderSetting list" where
  "rudderLadder = [HARD_PORT, HALF_PORT, MIDSHIPS, HALF_STARBOARD, HARD_STARBOARD]"

fun rudderRank :: "RudderSetting \<Rightarrow> nat" where
  "rudderRank HARD_PORT = 0"
| "rudderRank HALF_PORT = 1"
| "rudderRank MIDSHIPS = 2"
| "rudderRank HALF_STARBOARD = 3"
| "rudderRank HARD_STARBOARD = 4"

section \<open>Ship.ts: the update step\<close>

definition updateSpeed :: "Ship \<Rightarrow> number \<Rightarrow> Ship" where
  "updateSpeed ship deltaTime =
     (let ship1 = ship\<lparr>targetSpeed :=
                         jmul (NavalSpeed_value (targetSpeedSetting ship)) (maxSpeed ship)\<rparr>;
          speedDiff = jsub (targetSpeed ship1) (currentSpeed ship1)
      in if jgt (jabs speedDiff) (lit (1 / 100)) then
           (let changeRate = jmul (jmul (acceleration ship1) (Fin 15)) deltaTime
            in if jgt speedDiff (Fin 0)
               then ship1\<lparr>currentSpeed :=
                             jmin (targetSpeed ship1) (jadd (currentSpeed ship1) changeRate)\<rparr>
               else ship1\<lparr>currentSpeed :=
                             jmax (targetSpeed ship1) (jsub (currentSpeed ship1) changeRate)\<rparr>)
         else ship1)"

text \<open>
  The two loops that bring the rotation back into the range from 0 to 2 pi:
  \<^verbatim>\<open>while (this.rotation < 0) this.rotation += Math.PI * 2\<close> and
  \<^verbatim>\<open>while (this.rotation >= Math.PI * 2) this.rotation -= Math.PI * 2\<close>.
  In double arithmetic a loop runs forever once the rotation is so large that adding
  2 pi no longer changes it: the result is then None.
\<close>

partial_function (option) normalizeUp :: "number \<Rightarrow> number option" where
  "normalizeUp r =
     (if jlt r (Fin 0) then normalizeUp (jadd r (jmul MATH_PI (Fin 2))) else Some r)"

partial_function (option) normalizeDown :: "number \<Rightarrow> number option" where
  "normalizeDown r =
     (if jge r (jmul MATH_PI (Fin 2)) then normalizeDown (jsub r (jmul MATH_PI (Fin 2)))
      else Some r)"

definition updateRotation :: "Ship \<Rightarrow> number \<Rightarrow> Ship option" where
  "updateRotation ship deltaTime =
     (let absSpeed = jabs (jdiv (currentSpeed ship) (maxSpeed ship))
      in if jlt absSpeed MIN_SPEED_FOR_TURNING then Some ship
         else
           (let turnFactor =
                  (if jlt absSpeed OPTIMAL_TURN_SPEED
                   then jadd MIN_TURN_FACTOR
                          (jmul (jsub MAX_TURN_FACTOR MIN_TURN_FACTOR)
                             (jdiv (jsub absSpeed MIN_SPEED_FOR_TURNING)
                                   (jsub OPTIMAL_TURN_SPEED MIN_SPEED_FOR_TURNING)))
                   else jsub MAX_TURN_FACTOR
                          (jmul (jsub MAX_TURN_FACTOR MIN_TURN_FACTOR)
                             (jdiv (jsub absSpeed OPTIMAL_TURN_SPEED)
                                   (jsub (Fin 1) OPTIMAL_TURN_SPEED))));
                turnFactor' = jmax MIN_TURN_FACTOR (jmin MAX_TURN_FACTOR turnFactor);
                directionFactor = (if jge (currentSpeed ship) (Fin 0) then Fin 1 else Fin (- 1));
                rotationAmount =
                  jmul (jmul (jmul (jmul (jmul (RudderSetting_value (rudderSetting ship))
                                               (rotationSpeed ship))
                                         turnFactor')
                                   directionFactor)
                             deltaTime)
                       (Fin 5)
            in if jneq rotationAmount (Fin 0) then
                 (case normalizeUp (jadd (rotation ship) rotationAmount) of
                    None \<Rightarrow> None
                  | Some r1 \<Rightarrow>
                      (case normalizeDown r1 of
                         None \<Rightarrow> None
                       | Some r2 \<Rightarrow> Some (ship\<lparr>rotation := r2\<rparr>)))
               else Some ship))"

definition applyDrag :: "Ship \<Rightarrow> number \<Rightarrow> Ship" where
  "applyDrag ship deltaTime =
     (if targetSpeedSetting ship = FULL_STOP then
        (let dragFactor = lit (1 / 10)
         in if jgt (jabs (currentSpeed ship)) (lit (1 / 100))
            then (let drag = jmul (jmul (currentSpeed ship) dragFactor) deltaTime
                  in ship\<lparr>currentSpeed := jsub (currentSpeed ship) drag\<rparr>)
            else ship\<lparr>currentSpeed := Fin 0\<rparr>)
      else ship)"


definition update ::
  "(number \<Rightarrow> number) \<Rightarrow> (number \<Rightarrow> number) \<Rightarrow> Ship \<Rightarrow> number \<Rightarrow> Ship option" where
  "update sinImpl cosImpl ship deltaTime =
     (case updateRotation (updateSpeed ship deltaTime) deltaTime of
        None \<Rightarrow> None
      | Some ship2 \<Rightarrow>
          (let ship3 = ship2\<lparr>velocity :=
                 \<lparr>num_x = jmul (sinImpl (rotation ship2)) (currentSpeed ship2),
                  num_y = jmul (jneg (cosImpl (rotation ship2))) (currentSpeed ship2)\<rparr>\<rparr>;
               ship4 = ship3\<lparr>position :=
                 \<lparr>num_x = jadd (num_x (position ship3)) (jmul (num_x (velocity ship3)) deltaTime),
                  num_y = jadd (num_y (position ship3)) (jmul (num_y (velocity ship3)) deltaTime)\<rparr>\<rparr>
           in Some (applyDrag ship4 deltaTime)))"

section \<open>PhysicsEngine.ts: collisions\<close>



section \<open>GameState.ts: the players of the server\<close>

text \<open>
  The server stores the positions and rotations it receives and computes only the
  start position of a player, Math.random() * 1000 - 500; its numbers are modelled as
  real numbers. A position is an object with the two fields x and y.
\<close>

record Vector2 =
  vec_x :: real
  vec_y :: real

record Player =
  player_id :: string
  player_name :: string
  player_position :: Vector2
  player_rotation :: real
  player_health :: real
  player_score :: real

text \<open>
  The class keeps its players in a JavaScript Map from socket ids to player objects. A
  Map holds one entry per key and iterates in the order of first insertion, so it is a
  list of pairs: \<open>mapSet\<close> replaces the value of a key that is present, where it
  stands, and appends a new key; \<open>mapDelete\<close> says whether the key was present.
\<close>

definition mapHas :: "('k \<times> 'v) list \<Rightarrow> 'k \<Rightarrow> bool" where
  "mapHas m k = (k \<in> set (map fst m))"

definition mapGet :: "('k \<times> 'v) list \<Rightarrow> 'k \<Rightarrow> 'v option" where
  "mapGet m k = map_of m k"

definition mapSet :: "('k \<times> 'v) list \<Rightarrow> 'k \<Rightarrow> 'v \<Rightarrow> ('k \<times> 'v) list" where
  "mapSet m k v =
     (if mapHas m k then map (\<lambda>(k', v'). if k' = k then (k', v) else (k', v')) m
      else m @ [(k, v)])"

definition mapDelete :: "('k \<times> 'v) list \<Rightarrow> 'k \<Rightarrow> ('k \<times> 'v) list \<times> bool" where
  "mapDelete m k = (filter (\<lambda>(k', v'). k' \<noteq> k) m, mapHas m k)"

definition mapValues :: "('k \<times> 'v) list \<Rightarrow> 'v list" where
  "mapValues m = map snd m"

definition mapSize :: "('k \<times> 'v) list \<Rightarrow> nat" where
  "mapSize m = length m"

record GameState =
  players :: "(string \<times> Player) list"

definition newGameState :: GameState where
  "newGameState = \<lparr> players = [] \<rparr>"

text \<open>
  The decimal digits of a natural number, as the template literal
  \<^verbatim>\<open>`Player ${this.players.size + 1}`\<close> writes the number.
\<close>

fun numberToString :: "nat \<Rightarrow> string" where
  "numberToString n =
     (if n < 10 then [''0123456789'' ! n]
      else numberToString (n div 10) @ [''0123456789'' ! (n mod 10)])"

declare numberToString.simps [simp del]

text \<open>
  addPlayer reads the id of the socket and draws two random numbers; the model takes
  the id and the two results of Math.random() as arguments. Math.random() returns a
  number that is at least 0 and less than 1. \<^verbatim>\<open>name || ...\<close> takes the default
  for the empty string.
\<close>

definition addPlayer :: "GameState \<Rightarrow> string \<Rightarrow> string \<Rightarrow> real \<Rightarrow> real \<Rightarrow> GameState \<times> Player" where
  "addPlayer gs socketId nm random1 random2 =
     (let player =
            \<lparr> player_id = socketId,
              player_name = (if nm \<noteq> [] then nm
                             else ''Player '' @ numberToString (mapSize (players gs) + 1)),
              player_position = \<lparr>vec_x = random1 * 1000 - 500, vec_y = random2 * 1000 - 500\<rparr>,
              player_rotation = 0,
              player_health = 100,
              player_score = 0 \<rparr>
      in (gs\<lparr>players := mapSet (players gs) socketId player\<rparr>, player))"

definition removePlayer :: "GameState \<Rightarrow> string \<Rightarrow> GameState \<times> bool" where
  "removePlayer gs socketId =
     (let (m, was_present) = mapDelete (players gs) socketId
      in (gs\<lparr>players := m\<rparr>, was_present))"

definition getPlayer :: "GameState \<Rightarrow> string \<Rightarrow> Player option" where
  "getPlayer gs socketId = mapGet (players gs) socketId"

definition getAllPlayers :: "GameState \<Rightarrow> Player list" where
  "getAllPlayers gs = mapValues (players gs)"

text \<open>
  The two update methods assign to a field of the player object that the Map holds, so
  the entry changes where it stands.
\<close>

definition updatePlayerPosition :: "GameState \<Rightarrow> string \<Rightarrow> Vector2 \<Rightarrow> GameState \<times> bool" where
  "updatePlayerPosition gs socketId pos =
     (case mapGet (players gs) socketId of
        None \<Rightarrow> (gs, False)
      | Some player \<Rightarrow>
          (gs\<lparr>players := mapSet (players gs) socketId (player\<lparr>player_position := pos\<rparr>)\<rparr>, True))"

definition updatePlayerRotation :: "GameState \<Rightarrow> string \<Rightarrow> real \<Rightarrow> GameState \<times> bool" where
  "updatePlayerRotation gs socketId rot =
     (case mapGet (players gs) socketId of
        None \<Rightarrow> (gs, False)
      | Some player \<Rightarrow>
          (gs\<lparr>players := mapSet (players gs) socketId (player\<lparr>player_rotation := rot\<rparr>)\<rparr>, True))"

text \<open>
  The states the server can be in: the singleton starts empty and changes only through
  its methods (the field \<open>players\<close> is private).
\<close>

inductive reachable :: "GameState \<Rightarrow> bool" where
  reach_new: "reachable newGameState"
| reach_add: "reachable gs \<Longrightarrow> 0 \<le> r1 \<Longrightarrow> r1 < 1 \<Longrightarrow> 0 \<le> r2 \<Longrightarrow> r2 < 1 \<Longrightarrow>
     reachable (fst (addPlayer gs socketId nm r1 r2))"
| reach_remove: "reachable gs \<Longrightarrow> reachable (fst (removePlayer gs socketId))"
| reach_position: "reachable gs \<Longrightarrow> reachable (fst (updatePlayerPosition gs socketId pos))"
| reach_rotation: "reachable gs \<Longrightarrow> reachable (fst (updatePlayerRotation gs socketId rot))"

definition keyed_by_id :: "(string \<times> Player) list \<Rightarrow> bool" where
  "keyed_by_id m = (distinct (map fst m) \<and> list_all (\<lambda>(k, p). player_id p = k) m)"

section \<open>server/index.ts: the socket handlers\<close>

text \<open>
  What a handler sends: \<^verbatim>\<open>socket.broadcast.emit(event, data)\<close>, which Socket.IO
  delivers to every connected client but the sender, recorded with the event and its
  data.
\<close>

datatype ServerEvent =
  PlayerMoved string Vector2
| PlayerRotated string real

datatype Emission = BroadcastEmit ServerEvent

definition onPlayerMove :: "GameState \<Rightarrow> string \<Rightarrow> Vector2 \<Rightarrow> GameState \<times> Emission list" where
  "onPlayerMove gs socketId pos =
     (let (gs', updated) = updatePlayerPosition gs socketId pos
      in if updated then (gs', [BroadcastEmit (PlayerMoved socketId pos)]) else (gs', []))"

definition onPlayerRotate :: "GameState \<Rightarrow> string \<Rightarrow> real \<Rightarrow> GameState \<times> Emission list" where
  "onPlayerRotate gs socketId rot =
     (let (gs', updated) = updatePlayerRotation gs socketId rot
      in if updated then (gs', [BroadcastEmit (PlayerRotated socketId rot)]) else (gs', []))"

section \<open>Properties and example inputs\<close>





















text \<open>
  The change rate of the speed step, \<^verbatim>\<open>acceleration * 15.0 * deltaTime\<close> as the
  code computes it, and the property of the speed step in two readings. In both, the
  target speed is the setting times maxSpeed, and when the speed is more than 0.01 away
  from it the new speed lies between the old speed and the target, otherwise the speed
  stays. \<open>speedStepExact\<close> bounds the step by the exact real product
  acceleration * 15 * deltaTime; \<open>speedStepRounded\<close> bounds it by the old speed
  plus and minus the change rate, as the code rounds these.
\<close>

definition changeRate :: "Ship \<Rightarrow> number \<Rightarrow> number" where
  "changeRate ship deltaTime = jmul (jmul (acceleration ship) (Fin 15)) deltaTime"

definition speedStepExact :: "Ship \<Rightarrow> number \<Rightarrow> bool" where
  "speedStepExact ship deltaTime =
     (let target = jmul (NavalSpeed_value (targetSpeedSetting ship)) (maxSpeed ship);
          old = currentSpeed ship;
          new = currentSpeed (updateSpeed ship deltaTime)
      in targetSpeed (updateSpeed ship deltaTime) = target
         \<and> (if jgt (jabs (jsub target old)) (lit (1 / 100))
             then atmost (jmin old target) new \<and> atmost new (jmax old target)
                  \<and> \<bar>val new - val old\<bar> \<le> val (acceleration ship) * 15 * val deltaTime
             else new = old))"

definition speedStepRounded :: "Ship \<Rightarrow> number \<Rightarrow> bool" where
  "speedStepRounded ship deltaTime =
     (let target = jmul (NavalSpeed_value (targetSpeedSetting ship)) (maxSpeed ship);
          old = currentSpeed ship;
          new = currentSpeed (updateSpeed ship deltaTime)
      in targetSpeed (updateSpeed ship deltaTime) = target
         \<and> (if jgt (jabs (jsub target old)) (lit (1 / 100))
             then atmost (jmin old target) new \<and> atmost new (jmax old target)
                  \<and> atmost (jsub old (changeRate ship deltaTime)) new
                  \<and> atmost new (jadd old (changeRate ship deltaTime))
             else new = old))"

text \<open>
  Ships for the speed examples: the player's ship with the setting FULL, and the same
  with the acceleration -1.
\<close>

definition fullAheadShip :: Ship where
  "fullAheadShip = playerShip\<lparr>targetSpeedSetting := FULL\<rparr>"

definition backwardShip :: Ship where
  "backwardShip = playerShip\<lparr>acceleration := Fin (- 1), targetSpeedSetting := FULL\<rparr>"

text \<open>
  The value of \<^verbatim>\<open>Math.PI * 2\<close>, the range of the rotation as the code tests it
  (at least 0 and less than \<^verbatim>\<open>Math.PI * 2\<close>), and what it is for update to keep
  the rotation there: update returns, and the rotation of the ship it returns is in the
  range.
\<close>

definition twoPi :: real where
  "twoPi = 884279719003555 / 2 ^ 47"

definition rotationInRange :: "number \<Rightarrow> bool" where
  "rotationInRange r = (jge r (Fin 0) \<and> jlt r (jmul MATH_PI (Fin 2)))"

definition updateKeepsRotationInRange ::
  "(number \<Rightarrow> number) \<Rightarrow> (number \<Rightarrow> number) \<Rightarrow> Ship \<Rightarrow> number \<Rightarrow> bool" where
  "updateKeepsRotationInRange sinImpl cosImpl ship deltaTime =
     (case update sinImpl cosImpl ship deltaTime of
        None \<Rightarrow> False
      | Some ship' \<Rightarrow> rotationInRange (rotation ship'))"

text \<open>
  The intermediate values of updateRotation, as it computes them: the speed as a
  fraction of maxSpeed, the clamped turn factor and the rotation amount.
\<close>

definition absSpeedOf :: "Ship \<Rightarrow> number" where
  "absSpeedOf ship = jabs (jdiv (currentSpeed ship) (maxSpeed ship))"

definition turnFactorOf :: "Ship \<Rightarrow> number" where
  "turnFactorOf ship =
     jmax MIN_TURN_FACTOR (jmin MAX_TURN_FACTOR
       (if jlt (absSpeedOf ship) OPTIMAL_TURN_SPEED
        then jadd MIN_TURN_FACTOR
               (jmul (jsub MAX_TURN_FACTOR MIN_TURN_FACTOR)
                  (jdiv (jsub (absSpeedOf ship) MIN_SPEED_FOR_TURNING)
                        (jsub OPTIMAL_TURN_SPEED MIN_SPEED_FOR_TURNING)))
        else jsub MAX_TURN_FACTOR
               (jmul (jsub MAX_TURN_FACTOR MIN_TURN_FACTOR)
                  (jdiv (jsub (absSpeedOf ship) OPTIMAL_TURN_SPEED)
                        (jsub (Fin 1) OPTIMAL_TURN_SPEED)))))"

definition rotationAmountOf :: "Ship \<Rightarrow> number \<Rightarrow> number" where
  "rotationAmountOf ship deltaTime =
     jmul (jmul (jmul (jmul (jmul (RudderSetting_value (rudderSetting ship))
                                  (rotationSpeed ship))
                            (turnFactorOf ship))
                      (if jge (currentSpeed ship) (Fin 0) then Fin 1 else Fin (- 1)))
                deltaTime)
          (Fin 5)"

text \<open>
  Ships for the rotation examples: the player's ship with maxSpeed 0, and the player's
  ship under way at half its top speed, rudder hard to starboard.
\<close>

definition becalmedShip :: Ship where
  "becalmedShip = playerShip\<lparr>maxSpeed := Fin 0\<rparr>"

definition turningShip :: Ship where
  "turningShip = playerShip\<lparr>currentSpeed := Fin 30, targetSpeedSetting := HALF,
                            rudderSetting := HARD_STARBOARD\<rparr>"

text \<open>
  A server state for the examples: one player has joined on the socket \<open>socket-1\<close>
  under the name Ann, with the random draws 0.25 and 0.75.
\<close>

definition lobby :: GameState where
  "lobby = fst (addPlayer newGameState ''socket-1'' ''Ann'' 0.25 0.75)"

definition ann :: Player where
  "ann = \<lparr> player_id = ''socket-1'', player_name = ''Ann'',
           player_position = \<lparr>vec_x = - 250, vec_y = 250\<rparr>, player_rotation = 0,
           player_health = 100, player_score = 0 \<rparr>"

section \<open>Rounding\<close>

text \<open>
  Rounding is monotone, leaves the doubles as they are (integers below 2 to the 53 and
  their multiples by powers of two), gives Infinity from 2 to the 1024 on and 0 up to
  2 to the -1075.
\<close>

lemma roundHalfEven_int: "roundHalfEven (of_int n) = n"
  by (simp add: roundHalfEven_def)

lemma roundHalfEven_bounds:
  "\<lfloor>q\<rfloor> \<le> roundHalfEven q" "roundHalfEven q \<le> \<lfloor>q\<rfloor> + 1"
  by (simp_all add: roundHalfEven_def Let_def)

lemma roundHalfEven_mono:
  assumes "a \<le> b"
  shows "roundHalfEven a \<le> roundHalfEven b"
proof (cases "\<lfloor>a\<rfloor> = \<lfloor>b\<rfloor>")
  case True
  with assms show ?thesis
    by (auto simp: roundHalfEven_def Let_def)
next
  case False
  with assms have "\<lfloor>a\<rfloor> + 1 \<le> \<lfloor>b\<rfloor>"
    using floor_mono[of a b] by linarith
  with roundHalfEven_bounds(2)[of a] roundHalfEven_bounds(1)[of b]
  show ?thesis by linarith
qed

lemma ulp_pos: "0 < ulp x"
  by (simp add: ulp_def)

lemma expo_upper: "0 < x \<Longrightarrow> x < 2 powr (of_int (expo x + 1))"
proof -
  assume pos: "0 < x"
  have "log 2 x < of_int (\<lfloor>log 2 x\<rfloor> + 1)" by linarith
  also have "\<dots> \<le> of_int (expo x + 1)" by (simp add: expo_def)
  finally have "log 2 x < of_int (expo x + 1)" .
  with pos show ?thesis by (simp add: less_powr_iff)
qed

lemma expo_lower: "0 < x \<Longrightarrow> - 1022 < expo x \<Longrightarrow> 2 powr (of_int (expo x)) \<le> x"
proof -
  assume pos: "0 < x" and "- 1022 < expo x"
  then have "expo x = \<lfloor>log 2 x\<rfloor>" by (simp add: expo_def max_def split: if_splits)
  then have "of_int (expo x) \<le> log 2 x" by simp
  with pos show ?thesis by (simp add: powr_le_iff)
qed

lemma expo_mono: "0 < x \<Longrightarrow> x \<le> y \<Longrightarrow> expo x \<le> expo y"
  unfolding expo_def by (intro max.mono floor_mono) (simp_all add: log_le_cancel_iff)

lemma ulp_scale: "2 powr (real_of_int (expo x + 1)) = ulp x * 2 ^ 53"
proof -
  have "ulp x * 2 powr 53 = 2 powr (real_of_int (expo x) - 52 + 53)"
    unfolding ulp_def by (simp only: powr_add)
  moreover have "(2::real) powr 53 = 2 ^ 53"
    by (simp add: powr_numeral)
  ultimately show ?thesis by (simp add: add.commute)
qed

lemma ulp_scale': "2 powr (real_of_int (expo x)) = ulp x * 2 ^ 52"
proof -
  have "ulp x * 2 powr 52 = 2 powr (real_of_int (expo x) - 52 + 52)"
    unfolding ulp_def by (simp only: powr_add)
  moreover have "(2::real) powr 52 = 2 ^ 52"
    by (simp add: powr_numeral)
  ultimately show ?thesis by simp
qed

lemma roundPos_nonneg: "0 < x \<Longrightarrow> 0 \<le> roundPos x"
proof -
  assume "0 < x"
  then have "0 \<le> x / ulp x" using ulp_pos[of x] by simp
  then have "roundHalfEven 0 \<le> roundHalfEven (x / ulp x)" by (rule roundHalfEven_mono)
  then have "0 \<le> roundHalfEven (x / ulp x)" using roundHalfEven_int[of 0] by simp
  then show ?thesis unfolding roundPos_def using ulp_pos[of x] by simp
qed

lemma roundPos_upper: "0 < x \<Longrightarrow> roundPos x \<le> 2 powr (of_int (expo x + 1))"
proof -
  assume pos: "0 < x"
  from expo_upper[OF pos] have "x < ulp x * 2 ^ 53" by (simp only: ulp_scale)
  then have "x / ulp x \<le> of_int (2 ^ 53)" using ulp_pos[of x] by (simp add: field_simps)
  then have "roundHalfEven (x / ulp x) \<le> roundHalfEven (of_int (2 ^ 53))"
    by (rule roundHalfEven_mono)
  then have "roundHalfEven (x / ulp x) \<le> 2 ^ 53" by (simp only: roundHalfEven_int)
  then have "of_int (roundHalfEven (x / ulp x)) \<le> (2 ^ 53 :: real)"
    by (metis of_int_le_iff of_int_numeral of_int_power)
  then show ?thesis
    unfolding roundPos_def ulp_scale using ulp_pos[of x] by simp
qed

lemma roundPos_lower:
  "0 < x \<Longrightarrow> - 1022 < expo x \<Longrightarrow> 2 powr (of_int (expo x)) \<le> roundPos x"
proof -
  assume pos: "0 < x" and normal: "- 1022 < expo x"
  from expo_lower[OF pos normal] have "ulp x * 2 ^ 52 \<le> x" by (simp only: ulp_scale')
  then have "of_int (2 ^ 52) \<le> x / ulp x" using ulp_pos[of x] by (simp add: field_simps)
  then have "roundHalfEven (of_int (2 ^ 52)) \<le> roundHalfEven (x / ulp x)"
    by (rule roundHalfEven_mono)
  then have "2 ^ 52 \<le> roundHalfEven (x / ulp x)" by (simp only: roundHalfEven_int)
  then have "(2 ^ 52 :: real) \<le> of_int (roundHalfEven (x / ulp x))"
    by (metis of_int_le_iff of_int_numeral of_int_power)
  then show ?thesis
    unfolding roundPos_def ulp_scale' using ulp_pos[of x] by simp
qed

lemma roundPos_mono:
  assumes "0 < x" and "x \<le> y"
  shows "roundPos x \<le> roundPos y"
proof (cases "expo x = expo y")
  case True
  then have same: "ulp x = ulp y" by (simp add: ulp_def)
  from assms have "x / ulp y \<le> y / ulp y" using ulp_pos[of y] by (simp add: divide_right_mono)
  then have "roundHalfEven (x / ulp y) \<le> roundHalfEven (y / ulp y)"
    by (rule roundHalfEven_mono)
  then show ?thesis unfolding roundPos_def same using ulp_pos[of y] by simp
next
  case False
  from assms have ypos: "0 < y" by simp
  from False expo_mono[OF assms] have less: "expo x + 1 \<le> expo y" by simp
  then have normal: "- 1022 < expo y" unfolding expo_def[of x] by simp
  have "roundPos x \<le> 2 powr (of_int (expo x + 1))"
    using assms(1) by (rule roundPos_upper)
  also have "\<dots> \<le> 2 powr (of_int (expo y))"
    using less by simp
  also have "\<dots> \<le> roundPos y"
    using ypos normal by (rule roundPos_lower)
  finally show ?thesis .
qed

lemma rnd_mono: "x \<le> y \<Longrightarrow> rnd x \<le> rnd y"
  unfolding rnd_def
  using roundPos_mono[of x y] roundPos_mono[of "- y" "- x"] roundPos_nonneg[of y]
    roundPos_nonneg[of "- x"]
  by (auto split: if_splits)

lemma rnd_zero: "rnd 0 = 0"
  by (simp add: rnd_def)

lemma roundPos_grid:
  assumes "x = of_int m * ulp x"
  shows "roundPos x = x"
proof -
  have "x / ulp x = of_int m * ulp x / ulp x"
    by (rule arg_cong[where f = "\<lambda>t. t / ulp x", OF assms])
  also have "\<dots> = of_int m" using ulp_pos[of x] by simp
  finally have q: "x / ulp x = of_int m" .
  have "roundPos x = ulp x * of_int m"
    unfolding roundPos_def q roundHalfEven_int ..
  also have "\<dots> = of_int m * ulp x" by (rule mult.commute)
  also have "\<dots> = x" by (rule assms[symmetric])
  finally show ?thesis .
qed

lemma two_powr_53: "(2::real) powr 53 = 2 ^ 53"
  by (simp add: powr_numeral)

lemma expo_of_scaled:
  fixes m k :: int
  assumes "0 < m" and "m < 2 ^ 53" and "- 1074 \<le> k"
  shows "expo (of_int m * 2 powr (of_int k)) \<le> k + 52"
proof -
  define x where "x = real_of_int m * 2 powr (of_int k)"
  from assms(1) have pos: "0 < x" unfolding x_def by simp
  from assms(2) have "real_of_int m < real_of_int (2 ^ 53)"
    by (simp only: of_int_less_iff)
  then have "real_of_int m < 2 powr 53"
    by (simp add: two_powr_53)
  then have "x < 2 powr 53 * 2 powr (of_int k)"
    unfolding x_def by simp
  also have "\<dots> = 2 powr (53 + real_of_int k)"
    by (simp only: powr_add)
  finally have "x < 2 powr (53 + real_of_int k)" .
  with pos have "log 2 x < 53 + real_of_int k"
    by (simp add: less_powr_iff)
  then have "\<lfloor>log 2 x\<rfloor> < 53 + k" by linarith
  with assms(3) show ?thesis unfolding expo_def x_def by simp
qed

lemma roundPos_scaled:
  fixes m k :: int
  assumes "0 < m" and "m < 2 ^ 53" and "- 1074 \<le> k"
  shows "roundPos (of_int m * 2 powr (of_int k)) = of_int m * 2 powr (of_int k)"
proof -
  define x where "x = real_of_int m * 2 powr (of_int k)"
  define j where "j = nat (k + 52 - expo x)"
  from expo_of_scaled[OF assms] have "0 \<le> k + 52 - expo x"
    unfolding x_def by simp
  then have "int j = k + 52 - expo x"
    unfolding j_def by simp
  then have "real_of_int k = real_of_int (expo x) - 52 + real j"
    by linarith
  then have "2 powr (real_of_int k) = 2 powr (real_of_int (expo x) - 52 + real j)"
    by (rule arg_cong)
  also have "\<dots> = ulp x * 2 powr (real j)"
    unfolding ulp_def by (simp only: powr_add)
  also have "2 powr (real j) = (2::real) ^ j"
    by (simp add: powr_realpow)
  finally have k_eq: "2 powr (real_of_int k) = ulp x * 2 ^ j" .
  have "x = real_of_int m * 2 powr (real_of_int k)"
    by (rule x_def)
  also have "\<dots> = real_of_int m * (ulp x * 2 ^ j)"
    by (rule arg_cong[OF k_eq])
  also have "\<dots> = of_int (m * 2 ^ j) * ulp x"
    by simp
  finally have "x = of_int (m * 2 ^ j) * ulp x" .
  then have "roundPos x = x" by (rule roundPos_grid)
  then show ?thesis unfolding x_def .
qed

lemma rnd_minus: "rnd (- x) = - rnd x"
  by (simp add: rnd_def)

lemma rnd_scaled:
  fixes m k :: int
  assumes "\<bar>m\<bar> < 2 ^ 53" and "- 1074 \<le> k"
  shows "rnd (of_int m * 2 powr (of_int k)) = of_int m * 2 powr (of_int k)"
proof -
  consider "0 < m" | "m = 0" | "m < 0" by linarith
  then show ?thesis
  proof cases
    case 1
    with assms have "roundPos (of_int m * 2 powr (of_int k)) = of_int m * 2 powr (of_int k)"
      by (intro roundPos_scaled) simp_all
    with 1 show ?thesis by (simp add: rnd_def)
  next
    case 2
    then show ?thesis by (simp add: rnd_def)
  next
    case 3
    with assms have "roundPos (of_int (- m) * 2 powr (of_int k)) = of_int (- m) * 2 powr (of_int k)"
      by (intro roundPos_scaled) simp_all
    then have flipped: "roundPos (- (of_int m * 2 powr (of_int k))) = - (of_int m * 2 powr (of_int k))"
      by simp
    have "real_of_int m * 2 powr (of_int k) < 0"
      using 3 by (simp add: mult_less_0_iff)
    then show ?thesis using flipped by (simp add: rnd_def)
  qed
qed

lemma rnd_int: "\<bar>m\<bar> < 2 ^ 53 \<Longrightarrow> rnd (of_int m) = of_int m"
  using rnd_scaled[of m 0] by simp

lemma rnd_times_power: "\<bar>m\<bar> < 2 ^ 53 \<Longrightarrow> rnd (of_int m * 2 ^ n) = of_int m * 2 ^ n"
  using rnd_scaled[of m "int n"] by (simp add: powr_realpow)

lemma rnd_over_power:
  "\<bar>m\<bar> < 2 ^ 53 \<Longrightarrow> n \<le> 1074 \<Longrightarrow> rnd (of_int m / 2 ^ n) = of_int m / 2 ^ n"
  using rnd_scaled[of m "- int n"] by (simp add: powr_minus powr_realpow divide_inverse)

lemma rnd_nonneg: "0 \<le> x \<Longrightarrow> 0 \<le> rnd x"
  using rnd_mono[of 0 x] by (simp add: rnd_zero)

lemma rnd_nonpos: "x \<le> 0 \<Longrightarrow> rnd x \<le> 0"
  using rnd_mono[of x 0] by (simp add: rnd_zero)


lemma maxBound_pos: "0 < maxBound"
  by (simp add: maxBound_def)

lemma fl_not_NaN [simp]: "fl x \<noteq> NaN"
  by (simp add: fl_def)

lemma fl_mono: "x \<le> y \<Longrightarrow> atmost (fl x) (fl y)"
  using rnd_mono[of x y] maxBound_pos by (auto simp: fl_def)

lemma fl_exact: "rnd x = x \<Longrightarrow> \<bar>x\<bar> < maxBound \<Longrightarrow> fl x = Fin x"
  by (auto simp: fl_def)

lemma fl_zero [simp]: "fl 0 = Fin 0"
  using maxBound_pos by (simp add: fl_def rnd_zero)




lemma below_maxBound: "\<bar>x\<bar> \<le> 2 ^ 64 \<Longrightarrow> \<bar>x\<bar> < maxBound"
proof -
  assume "\<bar>x\<bar> \<le> 2 ^ 64"
  also have "(2::real) ^ 64 = 2 powr 64" by (simp add: powr_numeral)
  also have "\<dots> < maxBound" unfolding maxBound_def by (rule powr_less_mono) simp_all
  finally show ?thesis .
qed

lemma fl_int: "\<bar>m\<bar> < 2 ^ 53 \<Longrightarrow> fl (of_int m) = Fin (of_int m)"
proof -
  assume small: "\<bar>m\<bar> < 2 ^ 53"
  then have "\<bar>real_of_int m\<bar> \<le> 2 ^ 64" by simp
  then show ?thesis using small by (intro fl_exact rnd_int below_maxBound)
qed

lemma fl_60: "fl 60 = Fin 60"
  using fl_int[of 60] by simp

lemma special_values:
  "jmul PosInf (Fin 0) = NaN" "jmul PosInf (Fin (-1)) = NegInf" "jdiv (Fin 1) PosInf = Fin 0"
  "jdiv PosInf NegInf = NaN" "jdiv NegInf (Fin 2) = NegInf" "jadd NegInf NegInf = NegInf"
  "jadd (Fin 1) NegInf = NegInf" "jmul NegInf NegInf = PosInf" "jdiv PosInf (Fin 0) = PosInf"
  by simp_all

lemma atmost_NaN [simp]: "atmost a NaN = False"
  by (cases a) simp_all

lemma jadd_NaN [simp]: "jadd a NaN = NaN"
  by (cases a) simp_all

lemma jmul_NaN [simp]: "jmul a NaN = NaN"
  by (cases a) simp_all

lemma jdiv_NaN [simp]: "jdiv a NaN = NaN"
  by (cases a) simp_all

lemma jsub_NaN [simp]: "jsub a NaN = NaN" "jsub NaN b = NaN"
  by (simp_all add: jsub_def)

lemma jsub_Fin [simp]: "jsub (Fin x) (Fin y) = fl (x - y)"
  by (simp add: jsub_def)

lemma jmin_NaN [simp]: "jmin a NaN = NaN" "jmin NaN b = NaN"
  by (simp_all add: jmin_def)

lemma jmax_NaN [simp]: "jmax a NaN = NaN" "jmax NaN b = NaN"
  by (simp_all add: jmax_def)

lemma jlt_NaN [simp]: "jlt a NaN = False" "jlt NaN b = False"
  by (simp_all add: jlt_def)

lemma jgt_NaN [simp]: "jgt a NaN = False" "jgt NaN b = False"
  by (simp_all add: jgt_def)

lemma jge_NaN [simp]: "jge a NaN = False" "jge NaN b = False"
  by (simp_all add: jge_def)

lemma fl_neg: "fl (- x) = jneg (fl x)"
  using maxBound_pos by (auto simp: fl_def rnd_minus)

lemma fl_numeral: "(numeral n :: int) < 2 ^ 53 \<Longrightarrow> fl (numeral n) = Fin (numeral n)"
  using fl_int[of "numeral n"] by simp

lemma fl_one [simp]: "fl 1 = Fin 1"
  using fl_int[of 1] by simp

lemma rnd_one: "rnd 1 = 1"
  using rnd_int[of 1] by simp

lemma one_below_maxBound: "1 < maxBound"
  using below_maxBound[of 1] by simp

lemma rnd_unit: "\<bar>x\<bar> \<le> 1 \<Longrightarrow> \<bar>rnd x\<bar> \<le> 1"
  using rnd_mono[of x 1] rnd_mono[of "- 1" x] rnd_one rnd_minus[of 1] by (simp add: abs_le_iff)

lemma lit_unit: "\<bar>x\<bar> \<le> 1 \<Longrightarrow> lit x = Fin (rnd x)"
  using rnd_unit[of x] one_below_maxBound by (auto simp: lit_def fl_def)

lemma lit_nonneg: "0 \<le> x \<Longrightarrow> x \<le> 1 \<Longrightarrow> atmost (Fin 0) (lit x)"
  using rnd_nonneg[of x] by (simp add: lit_unit)

lemma atmost_refl: "a \<noteq> NaN \<Longrightarrow> atmost a a"
  by (cases a) simp_all

lemma atmost_trans: "atmost a b \<Longrightarrow> atmost b c \<Longrightarrow> atmost a c"
  by (cases a; cases b; cases c) simp_all

lemma atmost_antisym: "atmost a b \<Longrightarrow> atmost b a \<Longrightarrow> a = b"
  by (cases a; cases b) simp_all

lemma atmost_total: "a \<noteq> NaN \<Longrightarrow> b \<noteq> NaN \<Longrightarrow> atmost a b \<or> atmost b a"
  by (cases a; cases b) auto

lemma atmost_not_NaN: "atmost a b \<Longrightarrow> a \<noteq> NaN \<and> b \<noteq> NaN"
  by (cases a; cases b) simp_all

lemma jmin_lower: "a \<noteq> NaN \<Longrightarrow> b \<noteq> NaN \<Longrightarrow> atmost (jmin a b) a \<and> atmost (jmin a b) b"
  using atmost_total[of a b] by (auto simp: jmin_def atmost_refl)

lemma jmin_greatest: "atmost c a \<Longrightarrow> atmost c b \<Longrightarrow> atmost c (jmin a b)"
  by (auto simp: jmin_def dest: atmost_not_NaN)

lemma jmax_upper: "a \<noteq> NaN \<Longrightarrow> b \<noteq> NaN \<Longrightarrow> atmost a (jmax a b) \<and> atmost b (jmax a b)"
  using atmost_total[of a b] by (auto simp: jmax_def atmost_refl)

lemma jmax_least: "atmost a c \<Longrightarrow> atmost b c \<Longrightarrow> atmost (jmax a b) c"
  by (auto simp: jmax_def dest: atmost_not_NaN)

lemma jmin_absorb: "atmost a b \<Longrightarrow> jmin a b = a" "atmost a b \<Longrightarrow> jmax a b = b"
  by (auto simp: jmin_def jmax_def dest: atmost_not_NaN)

lemma jmin_absorb': "atmost b a \<Longrightarrow> jmin a b = b" "atmost b a \<Longrightarrow> jmax a b = a"
  by (auto simp: jmin_def jmax_def dest: atmost_not_NaN atmost_antisym)

lemma fl_above: "rnd x = x \<Longrightarrow> \<bar>x\<bar> < maxBound \<Longrightarrow> x \<le> y \<Longrightarrow> atmost (Fin x) (fl y)"
  using fl_mono[of x y] by (simp add: fl_exact)

lemma fl_below: "rnd y = y \<Longrightarrow> \<bar>y\<bar> < maxBound \<Longrightarrow> x \<le> y \<Longrightarrow> atmost (fl x) (Fin y)"
  using fl_mono[of x y] by (simp add: fl_exact)

lemma jadd_nonneg:
  assumes "isDouble a" and "atmost (Fin 0) b"
  shows "atmost a (jadd a b)"
proof -
  from assms(1) obtain x where a: "a = Fin x" "rnd x = x" "\<bar>x\<bar> < maxBound"
    by (auto simp: isDouble_def split: number.splits)
  from assms(2) show ?thesis
    unfolding a(1) using a(2,3) by (cases b) (simp_all add: fl_above)
qed

lemma jsub_nonneg:
  assumes "isDouble a" and "atmost (Fin 0) b"
  shows "atmost (jsub a b) a"
proof -
  from assms(1) obtain x where a: "a = Fin x" "rnd x = x" "\<bar>x\<bar> < maxBound"
    by (auto simp: isDouble_def split: number.splits)
  from assms(2) show ?thesis
    unfolding a(1) using a(2,3) by (cases b) (simp_all add: fl_below jsub_def)
qed

lemma isDoubleE:
  assumes "isDouble a"
  obtains x where "a = Fin x" and "rnd x = x" and "\<bar>x\<bar> < maxBound"
  using assms by (auto simp: isDouble_def split: number.splits)

lemma isDouble_not_NaN: "isDouble a \<Longrightarrow> a \<noteq> NaN"
  by (auto simp: isDouble_def)

lemma rnd_abs: "rnd x = x \<Longrightarrow> rnd \<bar>x\<bar> = \<bar>x\<bar>"
  by (simp add: abs_if rnd_minus)

lemma scaled_finite:
  assumes "\<bar>s\<bar> \<le> 1" and "rnd m = m" and "\<bar>m\<bar> < maxBound"
  shows "fl (s * m) = Fin (rnd (s * m))"
proof -
  have "\<bar>s * m\<bar> \<le> \<bar>m\<bar>"
    using assms(1) by (simp add: abs_mult mult_left_le_one_le)
  then have "s * m \<le> \<bar>m\<bar>" and "- \<bar>m\<bar> \<le> s * m" by linarith+
  then have "rnd (s * m) \<le> rnd \<bar>m\<bar>" and "rnd (- \<bar>m\<bar>) \<le> rnd (s * m)"
    by (auto intro: rnd_mono)
  then have "\<bar>rnd (s * m)\<bar> \<le> \<bar>m\<bar>"
    using rnd_abs[OF assms(2)] by (simp add: rnd_minus abs_le_iff)
  with assms(3) show ?thesis by (auto simp: fl_def)
qed

lemma isDouble_int: "\<bar>m\<bar> < 2 ^ 53 \<Longrightarrow> isDouble (Fin (of_int m))"
  using rnd_int[of m] below_maxBound[of "of_int m"] by (simp add: isDouble_def)

lemma isDouble_numeral: "(numeral n :: int) < 2 ^ 53 \<Longrightarrow> isDouble (Fin (numeral n))"
  using isDouble_int[of "numeral n"] by simp

lemma isDouble_zero: "isDouble (Fin 0)"
  using isDouble_int[of 0] by simp

lemma isDouble_one: "isDouble (Fin 1)"
  using isDouble_int[of 1] by simp

lemma isDouble_fraction:
  "\<bar>m\<bar> < 2 ^ 53 \<Longrightarrow> n \<le> 1074 \<Longrightarrow> isDouble (Fin (of_int m / 2 ^ n))"
proof -
  assume m: "\<bar>m\<bar> < 2 ^ 53" and n: "n \<le> 1074"
  have "\<bar>real_of_int m / 2 ^ n\<bar> \<le> \<bar>real_of_int m\<bar>"
    by (simp add: abs_divide divide_le_eq_1_pos field_simps mult_le_cancel_left1)
  also have "\<dots> \<le> 2 ^ 64" using m by simp
  finally have "\<bar>real_of_int m / 2 ^ n\<bar> < maxBound" by (rule below_maxBound)
  then show ?thesis using rnd_over_power[OF m n] by (simp add: isDouble_def)
qed

lemma fl_neg_numeral:
  "(numeral n :: int) < 2 ^ 53 \<Longrightarrow> fl (- numeral n) = Fin (- numeral n)"
  by (simp add: fl_neg fl_numeral)

lemma lit_hundredth: "\<exists>p. lit (1 / 100) = Fin p \<and> 0 \<le> p \<and> p \<le> 1"
  using lit_unit[of "1 / 100"] rnd_unit[of "1 / 100"] rnd_nonneg[of "1 / 100"] by simp

lemma rnd_power: "rnd (2 ^ k) = 2 ^ k"
  using rnd_times_power[of 1 k] by simp

lemma power_below_maxBound: "k \<le> 64 \<Longrightarrow> (2::real) ^ k < maxBound"
proof -
  assume "k \<le> 64"
  then have "(2::real) ^ k \<le> 2 ^ 64" by (rule power_increasing) simp
  then have "\<bar>(2::real) ^ k\<bar> \<le> 2 ^ 64" by simp
  then have "\<bar>(2::real) ^ k\<bar> < maxBound" by (rule below_maxBound)
  then show ?thesis by simp
qed

lemma fl_bounded:
  assumes "\<bar>x\<bar> \<le> 2 ^ k" and "k \<le> 64"
  shows "fl x = Fin (rnd x)" and "\<bar>rnd x\<bar> \<le> 2 ^ k"
proof -
  from assms(1) have "x \<le> 2 ^ k" and "- (2 ^ k) \<le> x" by linarith+
  then have "rnd x \<le> rnd (2 ^ k)" and "rnd (- (2 ^ k)) \<le> rnd x"
    by (auto intro: rnd_mono)
  then show bound: "\<bar>rnd x\<bar> \<le> 2 ^ k"
    by (simp add: rnd_minus rnd_power abs_le_iff)
  with power_below_maxBound[OF assms(2)] show "fl x = Fin (rnd x)"
    by (auto simp: fl_def)
qed

lemma magnitude_fl: "\<bar>x\<bar> \<le> 2 ^ k \<Longrightarrow> k \<le> 64 \<Longrightarrow> magnitudeAtMost (fl x) (2 ^ k)"
  using fl_bounded[of x k] by (simp add: magnitudeAtMost_def)

lemma jmul_magnitude:
  assumes "magnitudeAtMost a (2 ^ i)" and "magnitudeAtMost b (2 ^ j)" and "i + j \<le> 64"
  shows "magnitudeAtMost (jmul a b) (2 ^ (i + j))"
proof -
  from assms(1) obtain x where a: "a = Fin x" "\<bar>x\<bar> \<le> 2 ^ i"
    by (auto simp: magnitudeAtMost_def split: number.splits)
  from assms(2) obtain y where b: "b = Fin y" "\<bar>y\<bar> \<le> 2 ^ j"
    by (auto simp: magnitudeAtMost_def split: number.splits)
  have "\<bar>x * y\<bar> \<le> 2 ^ i * 2 ^ j"
    unfolding abs_mult using a(2) b(2) by (intro mult_mono) simp_all
  then have "\<bar>x * y\<bar> \<le> 2 ^ (i + j)" by (simp add: power_add)
  then show ?thesis
    unfolding a(1) b(1) using assms(3) by (simp add: magnitude_fl)
qed

lemma magnitude_weaken: "magnitudeAtMost a b \<Longrightarrow> b \<le> c \<Longrightarrow> magnitudeAtMost a c"
  by (auto simp: magnitudeAtMost_def split: number.splits)

lemma rnd_of_int_le:
  fixes k :: int
  assumes "\<bar>k\<bar> < 2 ^ 53" and "of_int k \<le> x"
  shows "of_int k \<le> rnd x"
  using rnd_mono[OF assms(2)] rnd_int[OF assms(1)] by simp

lemma rnd_le_of_int:
  fixes k :: int
  assumes "\<bar>k\<bar> < 2 ^ 53" and "x \<le> of_int k"
  shows "rnd x \<le> of_int k"
  using rnd_mono[OF assms(2)] rnd_int[OF assms(1)] by simp

lemma jadd_Fin_defined: "b \<noteq> NaN \<Longrightarrow> jadd (Fin x) b \<noteq> NaN"
  by (cases b) simp_all

lemma jsub_Fin_defined: "b \<noteq> NaN \<Longrightarrow> jsub (Fin x) b \<noteq> NaN"
  by (cases b) (simp_all add: jsub_def)

lemma jsub_defined_Fin: "a \<noteq> NaN \<Longrightarrow> jsub a (Fin y) \<noteq> NaN"
  by (cases a) (simp_all add: jsub_def)

lemma jmul_Fin_defined: "x \<noteq> 0 \<Longrightarrow> b \<noteq> NaN \<Longrightarrow> jmul (Fin x) b \<noteq> NaN"
  by (cases b) simp_all

lemma jdiv_defined: "a \<noteq> NaN \<Longrightarrow> y \<noteq> 0 \<Longrightarrow> jdiv a (Fin y) \<noteq> NaN"
  by (cases a) simp_all

lemma jabs_defined: "a \<noteq> NaN \<Longrightarrow> jabs a \<noteq> NaN"
  by (cases a) simp_all

lemma jmin_defined: "a \<noteq> NaN \<Longrightarrow> b \<noteq> NaN \<Longrightarrow> jmin a b \<noteq> NaN"
  by (simp add: jmin_def)

lemma jmax_defined: "a \<noteq> NaN \<Longrightarrow> b \<noteq> NaN \<Longrightarrow> jmax a b \<noteq> NaN"
  by (simp add: jmax_def)

lemma fl_between:
  assumes "a \<le> x" and "x \<le> b" and "rnd a = a" and "rnd b = b" and "- 1 \<le> a" and "b \<le> 1"
  shows "\<exists>r. fl x = Fin r \<and> a \<le> r \<and> r \<le> b"
proof -
  have "a \<le> rnd x" "rnd x \<le> b"
    using rnd_mono[OF assms(1)] rnd_mono[OF assms(2)] assms(3,4) by simp_all
  moreover from this assms(5,6) have "\<bar>rnd x\<bar> < maxBound"
    using one_below_maxBound by linarith
  ultimately show ?thesis by (auto simp: fl_def)
qed

lemma rnd_half: "rnd (1 / 2) = 1 / 2"
  using rnd_over_power[of 1 1] by simp

lemma rnd_quarter: "rnd (1 / 4) = 1 / 4"
  using rnd_over_power[of 1 2] by simp

lemma rnd_three_quarters: "rnd (3 / 4) = 3 / 4"
  using rnd_over_power[of 3 2] by simp

lemma rnd_sixteenth: "rnd (1 / 16) = 1 / 16"
  using rnd_over_power[of 1 4] by simp

text \<open>
  Rounding inside a binade, as a formula to evaluate: at least 2 to the e, below 2 to
  the e + 1, the doubles are the multiples of 2 to the e - 52.
\<close>

lemma rnd_binade:
  fixes e :: int
  assumes "2 powr (of_int e) \<le> x" and "x < 2 powr (of_int e + 1)" and "- 1022 \<le> e"
  shows "rnd x = 2 powr (of_int e - 52) * of_int (roundHalfEven (x / 2 powr (of_int e - 52)))"
proof -
  have pos: "0 < x"
    using assms(1) powr_gt_zero[of 2 "of_int e"] by linarith
  from assms(1) pos have "of_int e \<le> log 2 x" by (simp add: powr_le_iff)
  moreover from assms(2) pos have "log 2 x < of_int e + 1" by (simp add: less_powr_iff)
  ultimately have "\<lfloor>log 2 x\<rfloor> = e" by linarith
  with assms(3) have "expo x = e" by (simp add: expo_def)
  then show ?thesis using pos by (simp add: rnd_def roundPos_def ulp_def)
qed

lemma rnd_below_one:
  fixes n :: nat
  assumes "1 / 2 ^ n \<le> x" and "x < 2 / 2 ^ n" and "n \<le> 1022"
  shows "rnd x = of_int (roundHalfEven (x * 2 ^ (n + 52))) / 2 ^ (n + 52)"
proof -
  have a: "(2::real) powr (of_int (- int n)) = 1 / 2 ^ n"
    by (simp add: powr_minus powr_realpow divide_inverse)
  have b: "(2::real) powr (of_int (- int n) + 1) = 2 / 2 ^ n"
    by (simp add: powr_diff powr_realpow)
  have c: "(2::real) powr (of_int (- int n) - 52) = 1 / 2 ^ (n + 52)"
  proof -
    have "of_int (- int n) - 52 = - real (n + 52)" by simp
    then show ?thesis by (simp only: powr_minus powr_realpow zero_less_numeral divide_inverse mult_1)
  qed
  have "rnd x = 2 powr (of_int (- int n) - 52)
                 * of_int (roundHalfEven (x / 2 powr (of_int (- int n) - 52)))"
  proof (rule rnd_binade)
    show "2 powr real_of_int (- int n) \<le> x" using assms(1) by (simp only: a)
    show "x < 2 powr (real_of_int (- int n) + 1)" using assms(2) by (simp only: b)
    show "- 1022 \<le> - int n" using assms(3) by simp
  qed
  then show ?thesis unfolding c by simp
qed

text \<open>
  The rounding at work on the decimal literals: 0.1 + 0.2 is
  0.30000000000000004 (5404319552844596 / 2^54), the double after 0.3.
\<close>

lemma tenth:"lit (1 / 10) = Fin (3602879701896397 / 2 ^ 55)"
proof -
  have "rnd (1 / 10) = of_int (roundHalfEven (1 / 10 * 2 ^ (4 + 52))) / 2 ^ (4 + 52)"
    by (rule rnd_below_one) simp_all
  also have "roundHalfEven (1 / 10 * 2 ^ (4 + 52)) = 7205759403792794"
    by (simp add: roundHalfEven_def Let_def)
  finally have "rnd (1 / 10) = 3602879701896397 / 2 ^ 55" by simp
  then show ?thesis using lit_unit[of "1 / 10"] by simp
qed

lemma fifth: "lit (2 / 10) = Fin (3602879701896397 / 2 ^ 54)"
proof -
  have "rnd (2 / 10) = of_int (roundHalfEven (2 / 10 * 2 ^ (3 + 52))) / 2 ^ (3 + 52)"
    by (rule rnd_below_one) simp_all
  also have "roundHalfEven (2 / 10 * 2 ^ (3 + 52)) = 7205759403792794"
    by (simp add: roundHalfEven_def Let_def)
  finally have "rnd (2 / 10) = 3602879701896397 / 2 ^ 54" by simp
  then show ?thesis using lit_unit[of "2 / 10"] by simp
qed

lemma three_tenths: "lit (3 / 10) = Fin (5404319552844595 / 2 ^ 54)"
proof -
  have "rnd (3 / 10) = of_int (roundHalfEven (3 / 10 * 2 ^ (2 + 52))) / 2 ^ (2 + 52)"
    by (rule rnd_below_one) simp_all
  also have "roundHalfEven (3 / 10 * 2 ^ (2 + 52)) = 5404319552844595"
    by (simp add: roundHalfEven_def Let_def)
  finally have "rnd (3 / 10) = 5404319552844595 / 2 ^ 54" by simp
  then show ?thesis using lit_unit[of "3 / 10"] by simp
qed

lemma rounding_example:
  "jadd (lit (1 / 10)) (lit (2 / 10)) = Fin (5404319552844596 / 2 ^ 54)"
  "jadd (lit (1 / 10)) (lit (2 / 10)) \<noteq> lit (3 / 10)"
proof -
  have sum: "(3602879701896397 / 2 ^ 55 + 3602879701896397 / 2 ^ 54 :: real)
      = 10808639105689191 / 2 ^ 55" by simp
  have "rnd (10808639105689191 / 2 ^ 55)
      = of_int (roundHalfEven (10808639105689191 / 2 ^ 55 * 2 ^ (2 + 52))) / 2 ^ (2 + 52)"
    by (rule rnd_below_one) simp_all
  also have "roundHalfEven (10808639105689191 / 2 ^ 55 * 2 ^ (2 + 52)) = 5404319552844596"
    by (simp add: roundHalfEven_def Let_def)
  finally have r: "rnd (10808639105689191 / 2 ^ 55) = 5404319552844596 / 2 ^ 54" by simp
  have "\<bar>5404319552844596 / 2 ^ 54 :: real\<bar> \<le> 2 ^ 64" by simp
  then have "\<bar>5404319552844596 / 2 ^ 54 :: real\<bar> < maxBound" by (rule below_maxBound)
  with r have "fl (10808639105689191 / 2 ^ 55) = Fin (5404319552844596 / 2 ^ 54)"
    by (auto simp: fl_def)
  then show "jadd (lit (1 / 10)) (lit (2 / 10)) = Fin (5404319552844596 / 2 ^ 54)"
    unfolding tenth fifth jadd.simps sum .
  then show "jadd (lit (1 / 10)) (lit (2 / 10)) \<noteq> lit (3 / 10)"
    by (simp add: three_tenths)
qed

section \<open>Speed and rudder controls\<close>

lemma speedRank_ladder: "speedLadder ! speedRank s = s"
  by (cases s) (simp_all add: speedLadder_def)

lemma rudderRank_ladder: "rudderLadder ! rudderRank r = r"
  by (cases r) (simp_all add: rudderLadder_def)

text \<open>
  C5. increaseSpeedSetting replaces targetSpeedSetting by the next step up the ladder
  FULL_REVERSE, HALF_REVERSE, FULL_STOP, DEAD_SLOW, SLOW, HALF, FULL and leaves a ship at
  FULL as it is; decreaseSpeedSetting replaces it by the next step down and leaves a ship
  at FULL_REVERSE as it is. The result is the input ship with at most the field
  targetSpeedSetting updated, so no other field changes.
\<close>

theorem speed_setting_ladder:
  "increaseSpeedSetting ship =
     ship\<lparr>targetSpeedSetting :=
            speedLadder ! min 6 (speedRank (targetSpeedSetting ship) + 1)\<rparr>
   \<and> decreaseSpeedSetting ship =
     ship\<lparr>targetSpeedSetting :=
            speedLadder ! (speedRank (targetSpeedSetting ship) - 1)\<rparr>
   \<and> (targetSpeedSetting ship = FULL \<longrightarrow> increaseSpeedSetting ship = ship)
   \<and> (targetSpeedSetting ship = FULL_REVERSE \<longrightarrow> decreaseSpeedSetting ship = ship)
   \<and> (targetSpeedSetting ship \<noteq> FULL \<longrightarrow>
        speedRank (targetSpeedSetting (increaseSpeedSetting ship)) =
        speedRank (targetSpeedSetting ship) + 1)
   \<and> (targetSpeedSetting ship \<noteq> FULL_REVERSE \<longrightarrow>
        speedRank (targetSpeedSetting (decreaseSpeedSetting ship)) + 1 =
        speedRank (targetSpeedSetting ship))"
  by (cases "targetSpeedSetting ship")
     (simp_all add: increaseSpeedSetting_def decreaseSpeedSetting_def setSpeedSetting_def
        speedLadder_def)

theorem speed_setting_ladder_witness:
  "targetSpeedSetting playerShip \<noteq> FULL
   \<and> targetSpeedSetting playerShip \<noteq> FULL_REVERSE
   \<and> speedRank (targetSpeedSetting (increaseSpeedSetting playerShip)) = 3
   \<and> speedRank (targetSpeedSetting (decreaseSpeedSetting playerShip)) + 1 = 2
   \<and> targetSpeedSetting (playerShip\<lparr>targetSpeedSetting := FULL\<rparr>) = FULL
   \<and> increaseSpeedSetting (playerShip\<lparr>targetSpeedSetting := FULL\<rparr>) =
        playerShip\<lparr>targetSpeedSetting := FULL\<rparr>
   \<and> targetSpeedSetting (playerShip\<lparr>targetSpeedSetting := FULL_REVERSE\<rparr>) = FULL_REVERSE
   \<and> decreaseSpeedSetting (playerShip\<lparr>targetSpeedSetting := FULL_REVERSE\<rparr>) =
        playerShip\<lparr>targetSpeedSetting := FULL_REVERSE\<rparr>"
proof -
  have stop: "targetSpeedSetting playerShip = FULL_STOP"
    by (simp add: playerShip_def)
  have "targetSpeedSetting playerShip \<noteq> FULL \<longrightarrow>
        speedRank (targetSpeedSetting (increaseSpeedSetting playerShip)) =
        speedRank (targetSpeedSetting playerShip) + 1"
    using speed_setting_ladder[of playerShip] by blast
  then have up: "speedRank (targetSpeedSetting (increaseSpeedSetting playerShip)) = 3"
    by (simp add: stop)
  have "targetSpeedSetting playerShip \<noteq> FULL_REVERSE \<longrightarrow>
        speedRank (targetSpeedSetting (decreaseSpeedSetting playerShip)) + 1 =
        speedRank (targetSpeedSetting playerShip)"
    using speed_setting_ladder[of playerShip] by blast
  then have down: "speedRank (targetSpeedSetting (decreaseSpeedSetting playerShip)) + 1 = 2"
    by (simp add: stop)
  have "targetSpeedSetting (playerShip\<lparr>targetSpeedSetting := FULL\<rparr>) = FULL \<longrightarrow>
        increaseSpeedSetting (playerShip\<lparr>targetSpeedSetting := FULL\<rparr>) =
        playerShip\<lparr>targetSpeedSetting := FULL\<rparr>"
    using speed_setting_ladder[of "playerShip\<lparr>targetSpeedSetting := FULL\<rparr>"] by blast
  then have top: "increaseSpeedSetting (playerShip\<lparr>targetSpeedSetting := FULL\<rparr>) =
        playerShip\<lparr>targetSpeedSetting := FULL\<rparr>"
    by simp
  have "targetSpeedSetting (playerShip\<lparr>targetSpeedSetting := FULL_REVERSE\<rparr>) = FULL_REVERSE \<longrightarrow>
        decreaseSpeedSetting (playerShip\<lparr>targetSpeedSetting := FULL_REVERSE\<rparr>) =
        playerShip\<lparr>targetSpeedSetting := FULL_REVERSE\<rparr>"
    using speed_setting_ladder[of "playerShip\<lparr>targetSpeedSetting := FULL_REVERSE\<rparr>"] by blast
  then have bottom: "decreaseSpeedSetting (playerShip\<lparr>targetSpeedSetting := FULL_REVERSE\<rparr>) =
        playerShip\<lparr>targetSpeedSetting := FULL_REVERSE\<rparr>"
    by simp
  show ?thesis
    using up down top bottom by (simp add: stop)
qed

text \<open>
  C7. For every rudder setting other than HARD_STARBOARD, turnRudderStarboard followed by
  turnRudderPort gives the ship back as it was, and for every setting other than HARD_PORT
  so does turnRudderPort followed by turnRudderStarboard. Each call moves the rudder one
  step along HARD_PORT, HALF_PORT, MIDSHIPS, HALF_STARBOARD, HARD_STARBOARD and stays at
  the end it has reached.
\<close>

theorem rudder_round_trip:
  "(rudderSetting ship \<noteq> HARD_STARBOARD \<longrightarrow>
      turnRudderPort (turnRudderStarboard ship) = ship)
   \<and> (rudderSetting ship \<noteq> HARD_PORT \<longrightarrow>
      turnRudderStarboard (turnRudderPort ship) = ship)
   \<and> turnRudderStarboard ship =
        ship\<lparr>rudderSetting := rudderLadder ! min 4 (rudderRank (rudderSetting ship) + 1)\<rparr>
   \<and> turnRudderPort ship =
        ship\<lparr>rudderSetting := rudderLadder ! (rudderRank (rudderSetting ship) - 1)\<rparr>"
  by (cases "rudderSetting ship")
     (simp_all add: turnRudderPort_def turnRudderStarboard_def setRudderSetting_def
        rudderLadder_def)

theorem rudder_round_trip_witness:
  "rudderSetting playerShip \<noteq> HARD_STARBOARD
   \<and> rudderSetting playerShip \<noteq> HARD_PORT
   \<and> turnRudderPort (turnRudderStarboard playerShip) = playerShip
   \<and> turnRudderStarboard (turnRudderPort playerShip) = playerShip"
proof -
  have mid: "rudderSetting playerShip = MIDSHIPS"
    by (simp add: playerShip_def)
  have there_and_back: "turnRudderPort (turnRudderStarboard playerShip) = playerShip"
    using rudder_round_trip[of playerShip] unfolding mid by blast
  have back_and_there: "turnRudderStarboard (turnRudderPort playerShip) = playerShip"
    using rudder_round_trip[of playerShip] unfolding mid by blast
  show ?thesis
    using there_and_back back_and_there by (simp add: mid)
qed

section \<open>The position and rotation relay\<close>

lemma mapGet_Some_mapHas: "mapGet m k = Some v \<Longrightarrow> mapHas m k"
  unfolding mapGet_def mapHas_def
  by (metis map_of_SomeD fst_conv image_eqI set_map)

lemma mapGet_None_mapHas: "mapGet m k = None \<longleftrightarrow> \<not> mapHas m k"
  unfolding mapGet_def mapHas_def by (simp add: map_of_eq_None_iff)

lemma map_of_replace_same:
  "k \<in> set (map fst m) \<Longrightarrow>
   map_of (map (\<lambda>(k', v'). if k' = k then (k', v) else (k', v')) m) k = Some v"
  by (induction m) auto

lemma map_of_replace_other:
  "k' \<noteq> k \<Longrightarrow>
   map_of (map (\<lambda>(j, v'). if j = k then (j, v) else (j, v')) m) k' = map_of m k'"
  by (induction m) auto

lemma mapGet_mapSet_same: "mapGet (mapSet m k v) k = Some v"
  unfolding mapGet_def mapSet_def mapHas_def
  by (auto simp: map_of_replace_same map_add_def split: option.splits
        dest: map_of_SomeD intro: rev_image_eqI)

lemma mapGet_mapSet_other: "k' \<noteq> k \<Longrightarrow> mapGet (mapSet m k v) k' = mapGet m k'"
  unfolding mapGet_def mapSet_def mapHas_def
  by (simp add: map_of_replace_other map_add_def split: option.splits)

lemma mapGet_mapDelete_same: "mapGet (fst (mapDelete m k)) k = None"
  unfolding mapGet_def mapDelete_def
  by (induction m) auto

lemma mapGet_mapDelete_other: "k' \<noteq> k \<Longrightarrow> mapGet (fst (mapDelete m k)) k' = mapGet m k'"
  unfolding mapGet_def mapDelete_def
  by (induction m) auto

lemma updatePlayerPosition_None:
  "getPlayer gs sid = None \<Longrightarrow> updatePlayerPosition gs sid pos = (gs, False)"
  by (simp add: getPlayer_def updatePlayerPosition_def)

lemma updatePlayerRotation_None:
  "getPlayer gs sid = None \<Longrightarrow> updatePlayerRotation gs sid rot = (gs, False)"
  by (simp add: getPlayer_def updatePlayerRotation_def)

lemma updatePlayerPosition_Some:
  assumes "getPlayer gs sid = Some p"
  shows "snd (updatePlayerPosition gs sid pos) = True"
    and "getPlayer (fst (updatePlayerPosition gs sid pos)) sid = Some (p\<lparr>player_position := pos\<rparr>)"
    and "other \<noteq> sid \<Longrightarrow> getPlayer (fst (updatePlayerPosition gs sid pos)) other = getPlayer gs other"
  using assms
  by (simp_all add: getPlayer_def updatePlayerPosition_def mapGet_mapSet_same mapGet_mapSet_other)

lemma updatePlayerRotation_Some:
  assumes "getPlayer gs sid = Some p"
  shows "snd (updatePlayerRotation gs sid rot) = True"
    and "getPlayer (fst (updatePlayerRotation gs sid rot)) sid = Some (p\<lparr>player_rotation := rot\<rparr>)"
    and "other \<noteq> sid \<Longrightarrow> getPlayer (fst (updatePlayerRotation gs sid rot)) other = getPlayer gs other"
  using assms
  by (simp_all add: getPlayer_def updatePlayerRotation_def mapGet_mapSet_same mapGet_mapSet_other)

text \<open>
  C1. The handlers of player:move and player:rotate: when the game state has a player
  under the socket id, the received position (rotation) is stored in that player as it
  came and one broadcast carries the socket id and the value; when it has none, the game
  state stays as it is and nothing is broadcast. So a broadcast happens exactly when the
  player exists.
\<close>

theorem move_rotate_relay:
  "(getPlayer gs sid = None \<longrightarrow>
      onPlayerMove gs sid pos = (gs, []) \<and> onPlayerRotate gs sid rot = (gs, []))
   \<and> (\<forall>p. getPlayer gs sid = Some p \<longrightarrow>
        snd (onPlayerMove gs sid pos) = [BroadcastEmit (PlayerMoved sid pos)]
      \<and> getPlayer (fst (onPlayerMove gs sid pos)) sid = Some (p\<lparr>player_position := pos\<rparr>)
      \<and> snd (onPlayerRotate gs sid rot) = [BroadcastEmit (PlayerRotated sid rot)]
      \<and> getPlayer (fst (onPlayerRotate gs sid rot)) sid = Some (p\<lparr>player_rotation := rot\<rparr>))
   \<and> (snd (onPlayerMove gs sid pos) \<noteq> [] \<longleftrightarrow> getPlayer gs sid \<noteq> None)
   \<and> (snd (onPlayerRotate gs sid rot) \<noteq> [] \<longleftrightarrow> getPlayer gs sid \<noteq> None)"
proof (cases "getPlayer gs sid")
  case None
  then show ?thesis
    by (simp add: onPlayerMove_def onPlayerRotate_def updatePlayerPosition_None
          updatePlayerRotation_None)
next
  case (Some p)
  have mv: "onPlayerMove gs sid pos =
      (fst (updatePlayerPosition gs sid pos), [BroadcastEmit (PlayerMoved sid pos)])"
    using updatePlayerPosition_Some(1)[OF Some, of pos]
    by (simp add: onPlayerMove_def split_beta)
  have rt: "onPlayerRotate gs sid rot =
      (fst (updatePlayerRotation gs sid rot), [BroadcastEmit (PlayerRotated sid rot)])"
    using updatePlayerRotation_Some(1)[OF Some, of rot]
    by (simp add: onPlayerRotate_def split_beta)
  show ?thesis
    using Some updatePlayerPosition_Some(2)[OF Some, of pos]
      updatePlayerRotation_Some(2)[OF Some, of rot]
    by (simp add: mv rt)
qed

lemma lobby_players: "players lobby = [(''socket-1'', ann)]"
  by (simp add: lobby_def ann_def addPlayer_def newGameState_def mapSet_def mapHas_def Let_def)

lemma reachable_lobby: "reachable lobby"
  unfolding lobby_def by (rule reach_add[OF reach_new]) simp_all

theorem move_rotate_relay_witness:
  "getPlayer lobby ''socket-2'' = None
   \<and> onPlayerMove lobby ''socket-2'' \<lparr>vec_x = 3, vec_y = 4\<rparr> = (lobby, [])
   \<and> onPlayerRotate lobby ''socket-2'' 1 = (lobby, [])
   \<and> getPlayer lobby ''socket-1'' = Some ann
   \<and> snd (onPlayerMove lobby ''socket-1'' \<lparr>vec_x = 3, vec_y = 4\<rparr>) =
        [BroadcastEmit (PlayerMoved ''socket-1'' \<lparr>vec_x = 3, vec_y = 4\<rparr>)]
   \<and> getPlayer (fst (onPlayerMove lobby ''socket-1'' \<lparr>vec_x = 3, vec_y = 4\<rparr>)) ''socket-1'' =
        Some (ann\<lparr>player_position := \<lparr>vec_x = 3, vec_y = 4\<rparr>\<rparr>)
   \<and> snd (onPlayerRotate lobby ''socket-1'' 1) = [BroadcastEmit (PlayerRotated ''socket-1'' 1)]
   \<and> getPlayer (fst (onPlayerRotate lobby ''socket-1'' 1)) ''socket-1'' =
        Some (ann\<lparr>player_rotation := 1\<rparr>)"
proof -
  have absent: "getPlayer lobby ''socket-2'' = None"
    by (simp add: getPlayer_def mapGet_def lobby_players)
  have present: "getPlayer lobby ''socket-1'' = Some ann"
    by (simp add: getPlayer_def mapGet_def lobby_players)
  show ?thesis
    using move_rotate_relay[of lobby "''socket-2''" "\<lparr>vec_x = 3, vec_y = 4\<rparr>" 1]
      move_rotate_relay[of lobby "''socket-1''" "\<lparr>vec_x = 3, vec_y = 4\<rparr>" 1]
      absent present
    by simp
qed

section \<open>Joining and leaving\<close>

lemma keyed_by_id_mapSet:
  assumes "keyed_by_id m" and "player_id v = k"
  shows "keyed_by_id (mapSet m k v)"
proof (cases "mapHas m k")
  case True
  have keys: "map fst (map (\<lambda>(k', v'). if k' = k then (k', v) else (k', v')) m) = map fst m"
    by (induction m) auto
  have vals: "list_all (\<lambda>(j, p). player_id p = j) m \<Longrightarrow>
      list_all (\<lambda>(j, p). player_id p = j) (map (\<lambda>(k', v'). if k' = k then (k', v) else (k', v')) m)"
    using assms(2) by (induction m) (auto split: if_splits)
  have "distinct (map fst (map (\<lambda>(k', v'). if k' = k then (k', v) else (k', v')) m))"
    unfolding keys using assms(1) by (simp add: keyed_by_id_def)
  moreover have "list_all (\<lambda>(j, p). player_id p = j)
      (map (\<lambda>(k', v'). if k' = k then (k', v) else (k', v')) m)"
    using vals assms(1) by (simp add: keyed_by_id_def)
  ultimately show ?thesis
    unfolding keyed_by_id_def mapSet_def using True by simp
next
  case False
  with assms show ?thesis
    unfolding keyed_by_id_def mapSet_def mapHas_def by simp
qed

lemma keyed_by_id_mapDelete:
  assumes "keyed_by_id m"
  shows "keyed_by_id (fst (mapDelete m k))"
  using assms unfolding keyed_by_id_def mapDelete_def
  by (simp add: distinct_map_filter list_all_iff)

lemma keyed_by_id_mapGet:
  assumes "keyed_by_id m" and "mapGet m k = Some p"
  shows "player_id p = k"
proof -
  from assms(2) have "(k, p) \<in> set m"
    unfolding mapGet_def by (rule map_of_SomeD)
  with assms(1) show ?thesis
    unfolding keyed_by_id_def list_all_iff by auto
qed

lemma reachable_keyed_by_id: "reachable gs \<Longrightarrow> keyed_by_id (players gs)"
proof (induction rule: reachable.induct)
  case reach_new
  show ?case by (simp add: newGameState_def keyed_by_id_def)
next
  case (reach_add gs r1 r2 socketId nm)
  then show ?case
    by (simp add: addPlayer_def Let_def keyed_by_id_mapSet)
next
  case (reach_remove gs socketId)
  then show ?case
    by (simp add: removePlayer_def split_beta keyed_by_id_mapDelete)
next
  case (reach_position gs socketId pos)
  then show ?case
    by (auto simp: updatePlayerPosition_def split: option.splits
          intro!: keyed_by_id_mapSet dest: keyed_by_id_mapGet)
next
  case (reach_rotation gs socketId rot)
  then show ?case
    by (auto simp: updatePlayerRotation_def split: option.splits
          intro!: keyed_by_id_mapSet dest: keyed_by_id_mapGet)
qed

lemma keyed_values_filter:
  assumes "list_all (\<lambda>(j, p). player_id p = j) m"
  shows "map snd (filter (\<lambda>(k', v'). k' \<noteq> k) m) = filter (\<lambda>p. player_id p \<noteq> k) (map snd m)"
  using assms by (induction m) auto

text \<open>
  C6. In every state the server can reach, removePlayer returns true exactly when a
  player was stored under the socket id; afterwards getPlayer finds nobody under that
  id, getAllPlayers lists no player with that id (it lists the players of before without
  that one, in the same order), and getPlayer answers for every other id as before.
\<close>

theorem removePlayer_forgets_player:
  assumes "reachable gs"
  shows "snd (removePlayer gs sid) = (getPlayer gs sid \<noteq> None)
     \<and> getPlayer (fst (removePlayer gs sid)) sid = None
     \<and> (\<forall>p \<in> set (getAllPlayers (fst (removePlayer gs sid))). player_id p \<noteq> sid)
     \<and> (\<forall>other. other \<noteq> sid \<longrightarrow>
          getPlayer (fst (removePlayer gs sid)) other = getPlayer gs other)
     \<and> getAllPlayers (fst (removePlayer gs sid)) =
          filter (\<lambda>p. player_id p \<noteq> sid) (getAllPlayers gs)"
proof -
  have state: "players (fst (removePlayer gs sid)) = fst (mapDelete (players gs) sid)"
    by (simp add: removePlayer_def split_beta)
  have answer: "snd (removePlayer gs sid) = mapHas (players gs) sid"
    by (simp add: removePlayer_def split_beta mapDelete_def)
  from assms have inv: "keyed_by_id (players gs)"
    by (rule reachable_keyed_by_id)
  have all: "getAllPlayers (fst (removePlayer gs sid)) =
          filter (\<lambda>p. player_id p \<noteq> sid) (getAllPlayers gs)"
    using inv unfolding getAllPlayers_def mapValues_def state keyed_by_id_def
    by (simp add: mapDelete_def keyed_values_filter)
  have returned: "snd (removePlayer gs sid) = (getPlayer gs sid \<noteq> None)"
    unfolding answer getPlayer_def by (simp add: mapGet_None_mapHas)
  have gone: "getPlayer (fst (removePlayer gs sid)) sid = None"
    unfolding getPlayer_def state by (rule mapGet_mapDelete_same)
  have others: "\<forall>other. other \<noteq> sid \<longrightarrow>
          getPlayer (fst (removePlayer gs sid)) other = getPlayer gs other"
    unfolding getPlayer_def state by (simp add: mapGet_mapDelete_other)
  have none_listed: "\<forall>p \<in> set (getAllPlayers (fst (removePlayer gs sid))). player_id p \<noteq> sid"
    unfolding all by simp
  from returned gone none_listed others all show ?thesis by blast
qed

theorem removePlayer_forgets_player_witness:
  "reachable lobby
   \<and> snd (removePlayer lobby ''socket-1'') = (getPlayer lobby ''socket-1'' \<noteq> None)
   \<and> getPlayer lobby ''socket-1'' = Some ann
   \<and> getPlayer (fst (removePlayer lobby ''socket-1'')) ''socket-1'' = None
   \<and> getAllPlayers (fst (removePlayer lobby ''socket-1'')) = []
   \<and> \<not> snd (removePlayer lobby ''socket-2'')
   \<and> getAllPlayers (fst (removePlayer lobby ''socket-2'')) = [ann]"
proof -
  have present: "getPlayer lobby ''socket-1'' = Some ann"
    by (simp add: getPlayer_def mapGet_def lobby_players)
  have absent: "getPlayer lobby ''socket-2'' = None"
    by (simp add: getPlayer_def mapGet_def lobby_players)
  have listed: "getAllPlayers lobby = [ann]"
    by (simp add: getAllPlayers_def mapValues_def lobby_players)
  have name: "player_id ann = ''socket-1''"
    by (simp add: ann_def)
  show ?thesis
    using removePlayer_forgets_player[OF reachable_lobby, of "''socket-1''"]
      removePlayer_forgets_player[OF reachable_lobby, of "''socket-2''"]
      reachable_lobby
    by (simp add: present absent listed name)
qed

text \<open>
  C10. With the two random draws at least 0 and below 1, the player that addPlayer
  creates has health 100, score 0, rotation 0, the id of the socket and both coordinates
  at least -500 and below 500; for the empty name the player is called Player N, with N
  one more than the number of players before the call, and any other name is kept. The
  player is stored under the socket id.
\<close>

theorem addPlayer_initial_values:
  assumes "0 \<le> r1" and "r1 < 1" and "0 \<le> r2" and "r2 < 1"
  shows "player_health (snd (addPlayer gs sid nm r1 r2)) = 100
     \<and> player_score (snd (addPlayer gs sid nm r1 r2)) = 0
     \<and> player_rotation (snd (addPlayer gs sid nm r1 r2)) = 0
     \<and> player_id (snd (addPlayer gs sid nm r1 r2)) = sid
     \<and> - 500 \<le> vec_x (player_position (snd (addPlayer gs sid nm r1 r2)))
     \<and> vec_x (player_position (snd (addPlayer gs sid nm r1 r2))) < 500
     \<and> - 500 \<le> vec_y (player_position (snd (addPlayer gs sid nm r1 r2)))
     \<and> vec_y (player_position (snd (addPlayer gs sid nm r1 r2))) < 500
     \<and> (nm = [] \<longrightarrow> player_name (snd (addPlayer gs sid nm r1 r2)) =
            ''Player '' @ numberToString (length (getAllPlayers gs) + 1))
     \<and> (nm \<noteq> [] \<longrightarrow> player_name (snd (addPlayer gs sid nm r1 r2)) = nm)
     \<and> getPlayer (fst (addPlayer gs sid nm r1 r2)) sid = Some (snd (addPlayer gs sid nm r1 r2))"
  using assms
  by (simp add: addPlayer_def Let_def getAllPlayers_def mapValues_def mapSize_def
        getPlayer_def mapGet_mapSet_same)

theorem addPlayer_initial_values_witness:
  "(0::real) \<le> 0.25 \<and> (0.25::real) < 1 \<and> (0::real) \<le> 0.75 \<and> (0.75::real) < 1
   \<and> player_health (snd (addPlayer newGameState ''socket-1'' [] 0.25 0.75)) = 100
   \<and> player_id (snd (addPlayer newGameState ''socket-1'' [] 0.25 0.75)) = ''socket-1''
   \<and> player_name (snd (addPlayer newGameState ''socket-1'' [] 0.25 0.75)) = ''Player 1''
   \<and> player_name (snd (addPlayer lobby ''socket-2'' [] 0.25 0.75)) = ''Player 2''
   \<and> player_name (snd (addPlayer lobby ''socket-2'' ''Bob'' 0.25 0.75)) = ''Bob''"
proof -
  have draws: "(0::real) \<le> 0.25" "(0.25::real) < 1" "(0::real) \<le> 0.75" "(0.75::real) < 1"
    by simp_all
  have nobody: "getAllPlayers newGameState = []"
    by (simp add: getAllPlayers_def mapValues_def newGameState_def)
  have listed: "getAllPlayers lobby = [ann]"
    by (simp add: getAllPlayers_def mapValues_def lobby_players)
  have digits: "numberToString (Suc 0) = ''1''" "numberToString (Suc (Suc 0)) = ''2''"
    by (simp_all add: numberToString.simps)
  show ?thesis
    using addPlayer_initial_values[OF draws, of newGameState "''socket-1''" "[]"]
      addPlayer_initial_values[OF draws, of lobby "''socket-2''" "[]"]
      addPlayer_initial_values[OF draws, of lobby "''socket-2''" "''Bob''"]
    by (simp add: nobody listed digits)
qed

section \<open>Collisions\<close>






















section \<open>The speed step\<close>

lemma speed_value_unit: "\<exists>s. NavalSpeed_value setting = Fin s \<and> \<bar>s\<bar> \<le> 1"
proof (cases setting)
  case FULL_REVERSE
  then show ?thesis using rnd_unit[of "6 / 10"] by (simp add: lit_unit)
next
  case HALF_REVERSE
  then show ?thesis using rnd_unit[of "3 / 10"] by (simp add: lit_unit)
next
  case DEAD_SLOW
  then show ?thesis using rnd_unit[of "2 / 10"] by (simp add: lit_unit)
next
  case SLOW
  then show ?thesis using rnd_unit[of "4 / 10"] by (simp add: lit_unit)
next
  case HALF
  then show ?thesis using rnd_unit[of "7 / 10"] by (simp add: lit_unit)
qed simp_all

lemma target_finite:
  assumes "isDouble (maxSpeed ship)"
  shows "\<exists>t. jmul (NavalSpeed_value (targetSpeedSetting ship)) (maxSpeed ship) = Fin t"
proof -
  from assms obtain m where m: "maxSpeed ship = Fin m" "rnd m = m" "\<bar>m\<bar> < maxBound"
    by (rule isDoubleE)
  obtain s where s: "NavalSpeed_value (targetSpeedSetting ship) = Fin s" "\<bar>s\<bar> \<le> 1"
    using speed_value_unit by blast
  show ?thesis
    unfolding m(1) s(1) using scaled_finite[OF s(2) m(2,3)] by simp
qed

lemma changeRate_nonneg:
  assumes "isDouble (acceleration ship)" and "isDouble deltaTime"
    and "atmost (Fin 0) (acceleration ship)" and "atmost (Fin 0) deltaTime"
    and "changeRate ship deltaTime \<noteq> NaN"
  shows "atmost (Fin 0) (changeRate ship deltaTime)"
proof -
  from assms(1) obtain a where a: "acceleration ship = Fin a" by (rule isDoubleE)
  from assms(2) obtain d where d: "deltaTime = Fin d" by (rule isDoubleE)
  from assms(3,4) have pos: "0 \<le> a" "0 \<le> d" by (simp_all add: a d)
  have first: "atmost (Fin 0) (fl (a * 15))"
    using pos fl_mono[of 0 "a * 15"] by simp
  show ?thesis
  proof (cases "fl (a * 15)")
    case (Fin r)
    with first have "0 \<le> r" by simp
    with pos have "0 \<le> r * d" by simp
    then have "atmost (Fin 0) (fl (r * d))" using fl_mono[of 0 "r * d"] by simp
    then show ?thesis by (simp add: changeRate_def a d Fin)
  next
    case PosInf
    with assms(5) pos show ?thesis
      by (auto simp: changeRate_def a d split: if_splits)
  next
    case NegInf
    with first show ?thesis by simp
  next
    case NaN
    with first show ?thesis by simp
  qed
qed

lemma diff_positive:
  assumes "jgt (fl (t - c)) (Fin 0)"
  shows "c < t"
proof (rule ccontr)
  assume "\<not> c < t"
  then have "t - c \<le> 0" by simp
  then have "atmost (fl (t - c)) (Fin 0)" using fl_mono[of "t - c" 0] by simp
  with assms show False
    by (auto simp: jgt_def jlt_def dest: atmost_antisym)
qed

lemma diff_negative:
  assumes "jgt (jabs (fl (t - c))) (lit (1 / 100))" and "\<not> jgt (fl (t - c)) (Fin 0)"
  shows "t < c"
proof (rule ccontr)
  assume "\<not> t < c"
  then have "0 \<le> t - c" by simp
  then have "atmost (Fin 0) (fl (t - c))" using fl_mono[of 0 "t - c"] by simp
  with assms(2) have zero: "fl (t - c) = Fin 0"
    by (auto simp: jgt_def jlt_def)
  have "atmost (Fin 0) (lit (1 / 100))" by (rule lit_nonneg) simp_all
  with assms(1) show False
    unfolding zero by (auto simp: jgt_def jlt_def dest: atmost_antisym)
qed

text \<open>
  With a negative acceleration the step moves the speed away from the target: the ship
  stands still with the setting FULL, target speed 60, and after one second its speed
  is -15.
\<close>

theorem updateSpeed_counterexample:
  "isDouble (currentSpeed backwardShip) \<and> isDouble (maxSpeed backwardShip)
   \<and> isDouble (acceleration backwardShip) \<and> isDouble (Fin 1)
   \<and> atmost (Fin 0) (Fin 1)
   \<and> currentSpeed backwardShip = Fin 0
   \<and> targetSpeed (updateSpeed backwardShip (Fin 1)) = Fin 60
   \<and> currentSpeed (updateSpeed backwardShip (Fin 1)) = Fin (- 15)
   \<and> \<not> speedStepExact backwardShip (Fin 1)"
proof -
  obtain p where p: "lit (1 / 100) = Fin p" "0 \<le> p" "p \<le> 1"
    using lit_hundredth by blast
  have doubles: "isDouble (currentSpeed backwardShip)" "isDouble (maxSpeed backwardShip)"
    "isDouble (acceleration backwardShip)" "isDouble (Fin 1)"
    using isDouble_int[of "- 1"]
    by (simp_all add: backwardShip_def playerShip_def isDouble_zero isDouble_one isDouble_numeral)
  have target: "targetSpeed (updateSpeed backwardShip (Fin 1)) = Fin 60"
    by (simp add: updateSpeed_def backwardShip_def playerShip_def Let_def fl_numeral)
  have speed: "currentSpeed (updateSpeed backwardShip (Fin 1)) = Fin (- 15)"
    using p
    by (simp add: updateSpeed_def backwardShip_def playerShip_def Let_def fl_numeral
          fl_neg_numeral jgt_def jlt_def jmin_def)
  have start: "currentSpeed backwardShip = Fin 0"
    by (simp add: backwardShip_def playerShip_def)
  have "\<not> speedStepExact backwardShip (Fin 1)"
    using p unfolding speedStepExact_def Let_def speed target start
    by (simp add: backwardShip_def playerShip_def fl_numeral jgt_def jlt_def jmin_def)
  with doubles target speed start show ?thesis by simp
qed

text \<open>
  C2 (amended). For every ship whose currentSpeed, maxSpeed and acceleration are finite
  doubles, with an acceleration that is not negative, and every finite deltaTime that is
  not negative, provided the change rate acceleration * 15.0 * deltaTime is not NaN
  (it is NaN only when acceleration * 15.0 overflows and deltaTime is 0): updateSpeed
  sets targetSpeed to the setting times maxSpeed; when currentSpeed is more than 0.01
  away from it, the new currentSpeed lies between the old one and targetSpeed, both
  included, and between the old one minus and plus the change rate, as the code rounds
  these; otherwise currentSpeed stays as it is.
\<close>

theorem updateSpeed_toward_target:
  assumes "isDouble (currentSpeed ship)" and "isDouble (maxSpeed ship)"
    and "isDouble (acceleration ship)" and "isDouble deltaTime"
    and "atmost (Fin 0) (acceleration ship)" and "atmost (Fin 0) deltaTime"
    and "changeRate ship deltaTime \<noteq> NaN"
  shows "speedStepRounded ship deltaTime"
proof -
  from assms(1) obtain c where c: "currentSpeed ship = Fin c" by (rule isDoubleE)
  obtain t where t: "jmul (NavalSpeed_value (targetSpeedSetting ship)) (maxSpeed ship) = Fin t"
    using target_finite[OF assms(2)] by blast
  define rate where "rate = changeRate ship deltaTime"
  have rate: "atmost (Fin 0) rate"
    unfolding rate_def using assms(3-7) by (rule changeRate_nonneg)
  have up: "atmost (Fin c) (jadd (Fin c) rate)"
    using jadd_nonneg[OF assms(1) rate] by (simp add: c)
  have down: "atmost (jsub (Fin c) rate) (Fin c)"
    using jsub_nonneg[OF assms(1) rate] by (simp add: c)
  have rate_eq: "jmul (jmul (acceleration ship) (Fin 15)) deltaTime = rate"
    by (simp add: rate_def changeRate_def)
  show ?thesis
  proof (cases "jgt (jabs (fl (t - c))) (lit (1 / 100))")
    case False
    then show ?thesis
      by (simp add: speedStepRounded_def updateSpeed_def Let_def c t)
  next
    case far: True
    show ?thesis
    proof (cases "jgt (fl (t - c)) (Fin 0)")
      case True
      then have "c < t" by (rule diff_positive)
      then have ct: "atmost (Fin c) (Fin t)" by simp
      have new: "currentSpeed (updateSpeed ship deltaTime) = jmin (Fin t) (jadd (Fin c) rate)"
        using far True by (simp add: updateSpeed_def Let_def c t rate_eq)
      have tt: "atmost (Fin t) (Fin t)" by simp
      have lower: "atmost (Fin c) (jmin (Fin t) (jadd (Fin c) rate))"
        using ct up by (rule jmin_greatest)
      have nn: "jadd (Fin c) rate \<noteq> NaN" using up by (auto dest: atmost_not_NaN)
      have upper: "atmost (jmin (Fin t) (jadd (Fin c) rate)) (Fin t)"
        and step: "atmost (jmin (Fin t) (jadd (Fin c) rate)) (jadd (Fin c) rate)"
        using jmin_lower[of "Fin t" "jadd (Fin c) rate"] nn by simp_all
      have behind: "atmost (jsub (Fin c) rate) (jmin (Fin t) (jadd (Fin c) rate))"
        using down lower by (rule atmost_trans)
      from far lower upper step behind show ?thesis
        unfolding speedStepRounded_def Let_def new rate_def[symmetric] c t
        by (simp add: updateSpeed_def Let_def c t jmin_absorb[OF ct])
    next
      case False
      with far have "t < c" by (rule diff_negative)
      then have tc: "atmost (Fin t) (Fin c)" by simp
      have new: "currentSpeed (updateSpeed ship deltaTime) = jmax (Fin t) (jsub (Fin c) rate)"
        using far False by (simp add: updateSpeed_def Let_def c t rate_eq)
      have upper: "atmost (jmax (Fin t) (jsub (Fin c) rate)) (Fin c)"
        using tc down by (rule jmax_least)
      have nn: "jsub (Fin c) rate \<noteq> NaN" using down by (auto dest: atmost_not_NaN)
      have lower: "atmost (Fin t) (jmax (Fin t) (jsub (Fin c) rate))"
        and step: "atmost (jsub (Fin c) rate) (jmax (Fin t) (jsub (Fin c) rate))"
        using jmax_upper[of "Fin t" "jsub (Fin c) rate"] nn by simp_all
      have forth: "atmost (jmax (Fin t) (jsub (Fin c) rate)) (jadd (Fin c) rate)"
        using upper up by (rule atmost_trans)
      from far lower upper step forth show ?thesis
        unfolding speedStepRounded_def Let_def new rate_def[symmetric] c t
        by (simp add: updateSpeed_def Let_def c t jmin_absorb'[OF tc])
    qed
  qed
qed

theorem updateSpeed_toward_target_witness:
  "isDouble (currentSpeed fullAheadShip) \<and> isDouble (maxSpeed fullAheadShip)
   \<and> isDouble (acceleration fullAheadShip) \<and> isDouble (Fin (1 / 64))
   \<and> atmost (Fin 0) (acceleration fullAheadShip) \<and> atmost (Fin 0) (Fin (1 / 64))
   \<and> changeRate fullAheadShip (Fin (1 / 64)) = Fin (15 / 32)
   \<and> speedStepRounded fullAheadShip (Fin (1 / 64))"
proof -
  have doubles: "isDouble (currentSpeed fullAheadShip)" "isDouble (maxSpeed fullAheadShip)"
    "isDouble (acceleration fullAheadShip)"
    by (simp_all add: fullAheadShip_def playerShip_def isDouble_zero isDouble_numeral)
  have frame: "isDouble (Fin (1 / 64))"
    using isDouble_fraction[of 1 6] by simp
  have signs: "atmost (Fin 0) (acceleration fullAheadShip)" "atmost (Fin 0) (Fin (1 / 64))"
    by (simp_all add: fullAheadShip_def playerShip_def)
  have "isDouble (Fin (15 / 32))"
    using isDouble_fraction[of 15 5] by simp
  then have "fl (15 / 32) = Fin (15 / 32)"
    by (simp add: isDouble_def fl_exact)
  then have rate: "changeRate fullAheadShip (Fin (1 / 64)) = Fin (15 / 32)"
    by (simp add: changeRate_def fullAheadShip_def playerShip_def fl_numeral)
  then have defined: "changeRate fullAheadShip (Fin (1 / 64)) \<noteq> NaN" by simp
  from updateSpeed_toward_target[OF doubles frame signs defined] doubles frame signs rate
  show ?thesis by simp
qed

section \<open>The rotation step\<close>

lemma twoPi_bounds: "6 \<le> twoPi" "twoPi \<le> 7"
  by (simp_all add: twoPi_def)

lemma twoPi_double: "rnd twoPi = twoPi" "\<bar>twoPi\<bar> < maxBound"
proof -
  show "rnd twoPi = twoPi"
    unfolding twoPi_def using rnd_over_power[of 884279719003555 47] by simp
  have "\<bar>twoPi\<bar> \<le> 2 ^ 64" using twoPi_bounds by simp
  then show "\<bar>twoPi\<bar> < maxBound" by (rule below_maxBound)
qed

lemma two_pi: "jmul MATH_PI (Fin 2) = Fin twoPi"
proof -
  have "(884279719003555 / 2 ^ 48 * 2 :: real) = twoPi" by (simp add: twoPi_def)
  moreover have "jmul MATH_PI (Fin 2) = fl (884279719003555 / 2 ^ 48 * 2)"
    by (simp only: MATH_PI_def jmul.simps)
  moreover have "fl twoPi = Fin twoPi"
    using twoPi_double by (rule fl_exact)
  ultimately show ?thesis by (simp only:)
qed

lemma step_up:
  assumes "y < 0" and "- (2 ^ 44) \<le> y"
  shows "fl (y + twoPi) = Fin (rnd (y + twoPi))"
    and "y + 5 < rnd (y + twoPi)" and "rnd (y + twoPi) \<le> 7"
proof -
  define k where "k = \<lfloor>y\<rfloor> + 6"
  have ky: "real_of_int \<lfloor>y\<rfloor> \<le> y" "y < real_of_int \<lfloor>y\<rfloor> + 1" by linarith+
  have "- 17592186044416 \<le> \<lfloor>y\<rfloor>" using assms(2) by simp
  moreover have "\<lfloor>y\<rfloor> < 0" using assms(1) by linarith
  ultimately have "\<bar>k\<bar> < 9007199254740992" unfolding k_def by linarith
  then have small: "\<bar>k\<bar> < 2 ^ 53" by simp
  have k_real: "real_of_int k = real_of_int \<lfloor>y\<rfloor> + 6" by (simp add: k_def)
  have "of_int k \<le> y + twoPi" using ky twoPi_bounds k_real by linarith
  then have "of_int k \<le> rnd (y + twoPi)" by (rule rnd_of_int_le[OF small])
  then show progress: "y + 5 < rnd (y + twoPi)" using ky k_real by linarith
  have "y + twoPi \<le> of_int 7" using assms(1) twoPi_bounds by simp
  then have "rnd (y + twoPi) \<le> of_int 7" by (rule rnd_le_of_int[rotated]) simp
  then show top: "rnd (y + twoPi) \<le> 7" by simp
  from progress top assms(2) have "\<bar>rnd (y + twoPi)\<bar> \<le> 2 ^ 64" by simp
  then have "\<bar>rnd (y + twoPi)\<bar> < maxBound" by (rule below_maxBound)
  then show "fl (y + twoPi) = Fin (rnd (y + twoPi))" by (auto simp: fl_def)
qed

lemma normalizeUp_returns:
  assumes "- (2 ^ 44) \<le> y" and "y \<le> 2 ^ 44"
  shows "\<exists>z. normalizeUp (Fin y) = Some (Fin z) \<and> 0 \<le> z \<and> z \<le> 2 ^ 44"
  using assms
proof (induction "nat \<lceil>- y\<rceil>" arbitrary: y rule: less_induct)
  case less
  show ?case
  proof (cases "y < 0")
    case False
    then have "normalizeUp (Fin y) = Some (Fin y)"
      by (subst normalizeUp.simps) (simp add: jlt_def)
    with False less.prems show ?thesis by simp
  next
    case True
    define y' where "y' = rnd (y + twoPi)"
    from step_up[OF True less.prems(1)]
    have next_value: "fl (y + twoPi) = Fin y'" and progress: "y + 5 < y'" and top: "y' \<le> 7"
      unfolding y'_def by simp_all
    have unfold: "normalizeUp (Fin y) = normalizeUp (Fin y')"
      using True by (subst normalizeUp.simps) (simp add: jlt_def two_pi next_value)
    have "\<lceil>- y'\<rceil> < \<lceil>- y\<rceil>" using progress by linarith
    moreover have "0 < \<lceil>- y\<rceil>" using True by linarith
    ultimately have "nat \<lceil>- y'\<rceil> < nat \<lceil>- y\<rceil>" by linarith
    moreover have "- (2 ^ 44) \<le> y'" using progress less.prems(1) by linarith
    moreover have "y' \<le> 2 ^ 44" using top by simp
    ultimately have "\<exists>z. normalizeUp (Fin y') = Some (Fin z) \<and> 0 \<le> z \<and> z \<le> 2 ^ 44"
      by (rule less.hyps)
    then show ?thesis unfolding unfold .
  qed
qed

lemma step_down:
  assumes "twoPi \<le> z" and "z \<le> 2 ^ 44"
  shows "fl (z - twoPi) = Fin (rnd (z - twoPi))"
    and "0 \<le> rnd (z - twoPi)" and "rnd (z - twoPi) < z - 5"
proof -
  define k where "k = \<lceil>z\<rceil> - 6"
  have kz: "z \<le> real_of_int \<lceil>z\<rceil>" "real_of_int \<lceil>z\<rceil> < z + 1" by linarith+
  have "\<lceil>z\<rceil> \<le> 17592186044416" using assms(2) by simp
  moreover have "0 \<le> \<lceil>z\<rceil>" using assms(1) twoPi_bounds by linarith
  ultimately have "\<bar>k\<bar> < 9007199254740992" unfolding k_def by linarith
  then have small: "\<bar>k\<bar> < 2 ^ 53" by simp
  have k_real: "real_of_int k = real_of_int \<lceil>z\<rceil> - 6" by (simp add: k_def)
  have "z - twoPi \<le> of_int k" using kz twoPi_bounds k_real by linarith
  then have "rnd (z - twoPi) \<le> of_int k" by (rule rnd_le_of_int[OF small])
  then show progress: "rnd (z - twoPi) < z - 5" using kz k_real by linarith
  show bottom: "0 \<le> rnd (z - twoPi)" using assms(1) by (intro rnd_nonneg) simp
  from progress bottom assms(2) have "\<bar>rnd (z - twoPi)\<bar> \<le> 2 ^ 64" by simp
  then have "\<bar>rnd (z - twoPi)\<bar> < maxBound" by (rule below_maxBound)
  then show "fl (z - twoPi) = Fin (rnd (z - twoPi))" by (auto simp: fl_def)
qed

lemma normalizeDown_returns:
  assumes "0 \<le> z" and "z \<le> 2 ^ 44"
  shows "\<exists>w. normalizeDown (Fin z) = Some (Fin w) \<and> 0 \<le> w \<and> w < twoPi"
  using assms
proof (induction "nat \<lceil>z\<rceil>" arbitrary: z rule: less_induct)
  case less
  show ?case
  proof (cases "twoPi \<le> z")
    case False
    then have "normalizeDown (Fin z) = Some (Fin z)"
      by (subst normalizeDown.simps) (simp add: jge_def two_pi)
    with False less.prems show ?thesis by simp
  next
    case True
    define z' where "z' = rnd (z - twoPi)"
    from step_down[OF True less.prems(2)]
    have next_value: "fl (z - twoPi) = Fin z'" and bottom: "0 \<le> z'" and progress: "z' < z - 5"
      unfolding z'_def by simp_all
    have unfold: "normalizeDown (Fin z) = normalizeDown (Fin z')"
      using True by (subst normalizeDown.simps) (simp add: jge_def two_pi next_value)
    have "\<lceil>z'\<rceil> < \<lceil>z\<rceil>" using progress by linarith
    moreover have "0 < \<lceil>z\<rceil>" using True twoPi_bounds by linarith
    ultimately have "nat \<lceil>z'\<rceil> < nat \<lceil>z\<rceil>" by linarith
    moreover note bottom
    moreover have "z' \<le> 2 ^ 44" using progress less.prems(2) by linarith
    ultimately have "\<exists>w. normalizeDown (Fin z') = Some (Fin w) \<and> 0 \<le> w \<and> w < twoPi"
      by (rule less.hyps)
    then show ?thesis unfolding unfold .
  qed
qed

lemma normalize_returns:
  assumes "\<bar>y\<bar> \<le> 2 ^ 44"
  shows "\<exists>z w. normalizeUp (Fin y) = Some z \<and> normalizeDown z = Some w \<and> rotationInRange w"
proof -
  from assms have "- (2 ^ 44) \<le> y" "y \<le> 2 ^ 44" by linarith+
  then obtain z where z: "normalizeUp (Fin y) = Some (Fin z)" "0 \<le> z" "z \<le> 2 ^ 44"
    using normalizeUp_returns by blast
  then obtain w where w: "normalizeDown (Fin z) = Some (Fin w)" "0 \<le> w" "w < twoPi"
    using normalizeDown_returns by blast
  have "rotationInRange (Fin w)"
    using w(2,3) by (simp add: rotationInRange_def jge_def jlt_def two_pi)
  with z(1) w(1) show ?thesis by blast
qed

lemma updateRotation_steps:
  "updateRotation ship deltaTime =
     (if jlt (absSpeedOf ship) MIN_SPEED_FOR_TURNING then Some ship
      else if jneq (rotationAmountOf ship deltaTime) (Fin 0) then
        (case normalizeUp (jadd (rotation ship) (rotationAmountOf ship deltaTime)) of
           None \<Rightarrow> None
         | Some r1 \<Rightarrow>
             (case normalizeDown r1 of
                None \<Rightarrow> None
              | Some r2 \<Rightarrow> Some (ship\<lparr>rotation := r2\<rparr>)))
      else Some ship)"
  by (simp add: updateRotation_def absSpeedOf_def turnFactorOf_def rotationAmountOf_def Let_def)

lemma turn_constants:
  obtains lo opt spd where
    "MIN_TURN_FACTOR = Fin lo" "0 \<le> lo" "lo \<le> 1 / 2"
    "OPTIMAL_TURN_SPEED = Fin opt" "1 / 2 \<le> opt" "opt \<le> 3 / 4"
    "MIN_SPEED_FOR_TURNING = Fin spd" "0 \<le> spd" "spd \<le> 1 / 16"
proof -
  obtain lo where lo: "fl (2 / 10) = Fin lo" "0 \<le> lo" "lo \<le> 1 / 2"
    using fl_between[of 0 "2 / 10" "1 / 2"] by (auto simp: rnd_zero rnd_half)
  obtain opt where opt: "fl (6 / 10) = Fin opt" "1 / 2 \<le> opt" "opt \<le> 3 / 4"
    using fl_between[of "1 / 2" "6 / 10" "3 / 4"] by (auto simp: rnd_three_quarters rnd_half)
  obtain spd where spd: "fl (5 / 100) = Fin spd" "0 \<le> spd" "spd \<le> 1 / 16"
    using fl_between[of 0 "5 / 100" "1 / 16"] by (auto simp: rnd_zero rnd_sixteenth)
  show ?thesis
    using lo opt spd
    by (intro that[of lo opt spd])
       (simp_all add: MIN_TURN_FACTOR_def OPTIMAL_TURN_SPEED_def MIN_SPEED_FOR_TURNING_def lit_def)
qed

lemma turnFactor_unit:
  assumes "absSpeedOf ship \<noteq> NaN"
  shows "magnitudeAtMost (turnFactorOf ship) (2 ^ 0)"
proof -
  obtain lo opt spd where c:
    "MIN_TURN_FACTOR = Fin lo" "0 \<le> lo" "lo \<le> 1 / 2"
    "OPTIMAL_TURN_SPEED = Fin opt" "1 / 2 \<le> opt" "opt \<le> 3 / 4"
    "MIN_SPEED_FOR_TURNING = Fin spd" "0 \<le> spd" "spd \<le> 1 / 16"
    by (rule turn_constants)
  obtain p where p: "fl (1 - lo) = Fin p" "1 / 2 \<le> p"
    using fl_between[of "1 / 2" "1 - lo" 1] c(2,3) by (auto simp: rnd_half rnd_one)
  obtain q where q: "fl (opt - spd) = Fin q" "1 / 4 \<le> q"
    using fl_between[of "1 / 4" "opt - spd" 1] c(5,6,8,9) by (auto simp: rnd_quarter rnd_one)
  obtain r where r: "fl (1 - opt) = Fin r" "1 / 4 \<le> r"
    using fl_between[of "1 / 4" "1 - opt" 1] c(5,6) by (auto simp: rnd_quarter rnd_one)
  define raw where "raw =
       (if jlt (absSpeedOf ship) OPTIMAL_TURN_SPEED
        then jadd MIN_TURN_FACTOR
               (jmul (jsub MAX_TURN_FACTOR MIN_TURN_FACTOR)
                  (jdiv (jsub (absSpeedOf ship) MIN_SPEED_FOR_TURNING)
                        (jsub OPTIMAL_TURN_SPEED MIN_SPEED_FOR_TURNING)))
        else jsub MAX_TURN_FACTOR
               (jmul (jsub MAX_TURN_FACTOR MIN_TURN_FACTOR)
                  (jdiv (jsub (absSpeedOf ship) OPTIMAL_TURN_SPEED)
                        (jsub (Fin 1) OPTIMAL_TURN_SPEED))))"
  have "raw \<noteq> NaN"
    unfolding raw_def c(1,4,7) MAX_TURN_FACTOR_def
    using assms p q r
    by (auto simp: jadd_Fin_defined jsub_Fin_defined jsub_defined_Fin jmul_Fin_defined
          jdiv_defined)
  then have inner: "jmin (Fin 1) raw \<noteq> NaN" "atmost (jmin (Fin 1) raw) (Fin 1)"
    using jmin_lower[of "Fin 1" raw] by (simp_all add: jmin_defined)
  have "atmost (Fin lo) (Fin 1)" using c(3) by simp
  then have top: "atmost (jmax (Fin lo) (jmin (Fin 1) raw)) (Fin 1)"
    using inner(2) by (rule jmax_least)
  have bottom: "atmost (Fin lo) (jmax (Fin lo) (jmin (Fin 1) raw))"
    using jmax_upper[of "Fin lo" "jmin (Fin 1) raw"] inner(1) by simp
  have "turnFactorOf ship = jmax (Fin lo) (jmin (Fin 1) raw)"
    by (simp add: turnFactorOf_def raw_def c(1) MAX_TURN_FACTOR_def)
  with top bottom c(2) show ?thesis
    by (cases "jmax (Fin lo) (jmin (Fin 1) raw)") (simp_all add: magnitudeAtMost_def)
qed

lemma absSpeed_defined:
  assumes "currentSpeed ship \<noteq> NaN" and "isDouble (maxSpeed ship)"
    and "\<not> (maxSpeed ship = Fin 0 \<and> currentSpeed ship = Fin 0)"
  shows "absSpeedOf ship \<noteq> NaN"
proof -
  from assms(2) obtain m where m: "maxSpeed ship = Fin m" by (rule isDoubleE)
  show ?thesis
    unfolding absSpeedOf_def m using assms(1,3)
    by (cases "currentSpeed ship") (auto simp: m intro!: jabs_defined)
qed

lemma rudder_unit: "magnitudeAtMost (RudderSetting_value r) (2 ^ 0)"
  by (cases r) (simp_all add: magnitudeAtMost_def)

lemma rotationAmount_bounded:
  assumes "magnitudeAtMost (rotationSpeed ship) (2 ^ 20)"
    and "magnitudeAtMost deltaTime (2 ^ 20)"
    and "absSpeedOf ship \<noteq> NaN"
  shows "magnitudeAtMost (rotationAmountOf ship deltaTime) (2 ^ 43)"
proof -
  have direction: "magnitudeAtMost (if jge (currentSpeed ship) (Fin 0) then Fin 1 else Fin (- 1)) (2 ^ 0)"
    by (simp add: magnitudeAtMost_def)
  have five: "magnitudeAtMost (Fin 5) (2 ^ 3)"
    by (simp add: magnitudeAtMost_def)
  have "magnitudeAtMost (jmul (RudderSetting_value (rudderSetting ship)) (rotationSpeed ship))
          (2 ^ (0 + 20))"
    using rudder_unit assms(1) by (rule jmul_magnitude) simp
  then have "magnitudeAtMost
      (jmul (jmul (RudderSetting_value (rudderSetting ship)) (rotationSpeed ship))
            (turnFactorOf ship)) (2 ^ (0 + 20 + 0))"
    using turnFactor_unit[OF assms(3)] by (rule jmul_magnitude) simp
  then have "magnitudeAtMost
      (jmul (jmul (jmul (RudderSetting_value (rudderSetting ship)) (rotationSpeed ship))
                  (turnFactorOf ship))
            (if jge (currentSpeed ship) (Fin 0) then Fin 1 else Fin (- 1))) (2 ^ (0 + 20 + 0 + 0))"
    using direction by (rule jmul_magnitude) simp
  then have "magnitudeAtMost
      (jmul (jmul (jmul (jmul (RudderSetting_value (rudderSetting ship)) (rotationSpeed ship))
                        (turnFactorOf ship))
                  (if jge (currentSpeed ship) (Fin 0) then Fin 1 else Fin (- 1)))
            deltaTime) (2 ^ (0 + 20 + 0 + 0 + 20))"
    using assms(2) by (rule jmul_magnitude) simp
  then have "magnitudeAtMost (rotationAmountOf ship deltaTime) (2 ^ (0 + 20 + 0 + 0 + 20 + 3))"
    unfolding rotationAmountOf_def using five by (rule jmul_magnitude) simp
  then show ?thesis by simp
qed

lemma rotationInRangeE:
  assumes "rotationInRange a"
  obtains r where "a = Fin r" and "0 \<le> r" and "r < twoPi"
  using assms by (cases a) (auto simp: rotationInRange_def jge_def jlt_def two_pi)

lemma updateRotation_returns:
  assumes "currentSpeed ship \<noteq> NaN" and "isDouble (maxSpeed ship)"
    and "\<not> (maxSpeed ship = Fin 0 \<and> currentSpeed ship = Fin 0)"
    and "rotationInRange (rotation ship)"
    and "magnitudeAtMost (rotationSpeed ship) (2 ^ 20)"
    and "magnitudeAtMost deltaTime (2 ^ 20)"
  shows "\<exists>ship'. updateRotation ship deltaTime = Some ship' \<and> rotationInRange (rotation ship')"
proof (cases "jlt (absSpeedOf ship) MIN_SPEED_FOR_TURNING")
  case True
  with assms(4) show ?thesis by (simp add: updateRotation_steps)
next
  case slow: False
  show ?thesis
  proof (cases "jneq (rotationAmountOf ship deltaTime) (Fin 0)")
    case False
    with slow assms(4) show ?thesis by (simp add: updateRotation_steps)
  next
    case True
    have "absSpeedOf ship \<noteq> NaN" using assms(1-3) by (rule absSpeed_defined)
    with assms(5,6) have "magnitudeAtMost (rotationAmountOf ship deltaTime) (2 ^ 43)"
      by (rule rotationAmount_bounded)
    then obtain amount where amount: "rotationAmountOf ship deltaTime = Fin amount"
      "\<bar>amount\<bar> \<le> 2 ^ 43"
      by (auto simp: magnitudeAtMost_def split: number.splits)
    from assms(4) obtain r where r: "rotation ship = Fin r" "0 \<le> r" "r < twoPi"
      by (rule rotationInRangeE)
    have "\<bar>r + amount\<bar> \<le> 2 ^ 44"
      using r(2,3) amount(2) twoPi_bounds by simp
    then have sum: "fl (r + amount) = Fin (rnd (r + amount))" "\<bar>rnd (r + amount)\<bar> \<le> 2 ^ 44"
      by (rule fl_bounded, simp)+
    obtain z w where turned: "normalizeUp (Fin (rnd (r + amount))) = Some z"
      "normalizeDown z = Some w" "rotationInRange w"
      using normalize_returns[OF sum(2)] by blast
    from slow True turned show ?thesis
      by (simp add: updateRotation_steps amount(1) r(1) sum(1))
  qed
qed

lemma updateSpeed_keeps:
  "rotation (updateSpeed ship deltaTime) = rotation ship"
  "maxSpeed (updateSpeed ship deltaTime) = maxSpeed ship"
  "rotationSpeed (updateSpeed ship deltaTime) = rotationSpeed ship"
  by (simp_all add: updateSpeed_def Let_def)

lemma updateSpeed_defined:
  assumes "isDouble (currentSpeed ship)" and "isDouble (maxSpeed ship)"
    and "changeRate ship deltaTime \<noteq> NaN"
  shows "currentSpeed (updateSpeed ship deltaTime) \<noteq> NaN"
proof -
  from assms(1) obtain c where c: "currentSpeed ship = Fin c" by (rule isDoubleE)
  obtain t where t: "jmul (NavalSpeed_value (targetSpeedSetting ship)) (maxSpeed ship) = Fin t"
    using target_finite[OF assms(2)] by blast
  from assms(3) have rate: "jmul (jmul (acceleration ship) (Fin 15)) deltaTime \<noteq> NaN"
    by (simp add: changeRate_def)
  show ?thesis
    unfolding updateSpeed_def Let_def using rate
    by (simp add: c t jmin_defined jmax_defined jadd_Fin_defined jsub_Fin_defined)
qed

lemma applyDrag_rotation: "rotation (applyDrag ship deltaTime) = rotation ship"
  by (simp add: applyDrag_def Let_def)

lemma normalize_NaN: "normalizeUp NaN = Some NaN" "normalizeDown NaN = Some NaN"
  by (subst normalizeUp.simps, simp) (subst normalizeDown.simps, simp)

text \<open>
  A ship with maxSpeed 0 that stands still: updateRotation computes 0 / 0, and the
  rotation becomes NaN, which is in no range.
\<close>

theorem update_counterexample:
  "rotationInRange (rotation becalmedShip)
   \<and> isDouble (Fin (1 / 64)) \<and> atmost (Fin 0) (Fin (1 / 64))
   \<and> maxSpeed becalmedShip = Fin 0
   \<and> currentSpeed (updateSpeed becalmedShip (Fin (1 / 64))) = Fin 0
   \<and> map_option rotation (update Math_sin Math_cos becalmedShip (Fin (1 / 64))) = Some NaN
   \<and> \<not> updateKeepsRotationInRange Math_sin Math_cos becalmedShip (Fin (1 / 64))"
proof -
  obtain p where p: "lit (1 / 100) = Fin p" "0 \<le> p" "p \<le> 1"
    using lit_hundredth by blast
  have start: "rotationInRange (rotation becalmedShip)"
    using twoPi_bounds
    by (simp add: becalmedShip_def playerShip_def rotationInRange_def jge_def jlt_def two_pi)
  have frame: "isDouble (Fin (1 / 64))"
    using isDouble_fraction[of 1 6] by simp
  have still: "updateSpeed becalmedShip (Fin (1 / 64)) = becalmedShip"
    using p
    by (simp add: updateSpeed_def becalmedShip_def playerShip_def Let_def jgt_def jlt_def)
  have speed: "currentSpeed becalmedShip = Fin 0" and top: "maxSpeed becalmedShip = Fin 0"
    by (simp_all add: becalmedShip_def playerShip_def)
  have ratio: "absSpeedOf becalmedShip = NaN"
    by (simp add: absSpeedOf_def speed top)
  have factor: "turnFactorOf becalmedShip = NaN"
    by (simp add: turnFactorOf_def ratio)
  have amount: "rotationAmountOf becalmedShip (Fin (1 / 64)) = NaN"
    by (simp add: rotationAmountOf_def factor)
  have turned: "updateRotation becalmedShip (Fin (1 / 64)) = Some (becalmedShip\<lparr>rotation := NaN\<rparr>)"
    by (simp add: updateRotation_steps ratio amount jneq_def normalize_NaN)
  have result: "map_option rotation (update Math_sin Math_cos becalmedShip (Fin (1 / 64))) = Some NaN"
    by (simp add: update_def still turned Let_def applyDrag_rotation)
  then have "\<not> updateKeepsRotationInRange Math_sin Math_cos becalmedShip (Fin (1 / 64))"
    by (auto simp: updateKeepsRotationInRange_def rotationInRange_def split: option.splits)
  with start frame top still speed result show ?thesis by simp
qed

text \<open>
  C9 (amended). For every ship whose rotation is at least 0 and less than Math.PI * 2,
  whose currentSpeed and maxSpeed are finite doubles and whose rotationSpeed is at most
  2 to the 20 in magnitude, and every deltaTime of at most 2 to the 20 in magnitude,
  provided the change rate acceleration * 15.0 * deltaTime is not NaN, and unless
  maxSpeed is 0 and the speed after the speed step is 0 as well: update returns, for any
  implementation of Math.sin and Math.cos, and the rotation of the ship is again at
  least 0 and less than Math.PI * 2. updateRotation either leaves the rotation as it is
  or normalises the new value into the range, both loops ending since the rotation
  amount is at most 2 to the 43, and no later step of update touches the rotation.
\<close>

theorem update_rotation_in_range:
  assumes "rotationInRange (rotation ship)"
    and "isDouble (currentSpeed ship)" and "isDouble (maxSpeed ship)"
    and "changeRate ship deltaTime \<noteq> NaN"
    and "magnitudeAtMost (rotationSpeed ship) (2 ^ 20)"
    and "magnitudeAtMost deltaTime (2 ^ 20)"
    and "\<not> (maxSpeed ship = Fin 0 \<and> currentSpeed (updateSpeed ship deltaTime) = Fin 0)"
  shows "updateKeepsRotationInRange sinImpl cosImpl ship deltaTime"
proof -
  define ship1 where "ship1 = updateSpeed ship deltaTime"
  have "currentSpeed ship1 \<noteq> NaN"
    unfolding ship1_def using assms(2,3,4) by (rule updateSpeed_defined)
  moreover have "isDouble (maxSpeed ship1)"
    unfolding ship1_def using assms(3) by (simp add: updateSpeed_keeps)
  moreover have "\<not> (maxSpeed ship1 = Fin 0 \<and> currentSpeed ship1 = Fin 0)"
    unfolding ship1_def using assms(7) by (simp add: updateSpeed_keeps)
  moreover have "rotationInRange (rotation ship1)"
    unfolding ship1_def using assms(1) by (simp add: updateSpeed_keeps)
  moreover have "magnitudeAtMost (rotationSpeed ship1) (2 ^ 20)"
    unfolding ship1_def using assms(5) by (simp add: updateSpeed_keeps)
  ultimately obtain ship2 where turned: "updateRotation ship1 deltaTime = Some ship2"
    "rotationInRange (rotation ship2)"
    using updateRotation_returns[OF _ _ _ _ _ assms(6)] by blast
  then show ?thesis
    unfolding updateKeepsRotationInRange_def update_def ship1_def[symmetric]
    by (simp add: Let_def applyDrag_rotation)
qed

theorem update_rotation_in_range_witness:
  "rotationInRange (rotation turningShip)
   \<and> isDouble (currentSpeed turningShip) \<and> isDouble (maxSpeed turningShip)
   \<and> changeRate turningShip (Fin (1 / 64)) = Fin (15 / 32)
   \<and> magnitudeAtMost (rotationSpeed turningShip) (2 ^ 20)
   \<and> magnitudeAtMost (Fin (1 / 64)) (2 ^ 20)
   \<and> maxSpeed turningShip = Fin 60
   \<and> updateKeepsRotationInRange Math_sin Math_cos turningShip (Fin (1 / 64))"
proof -
  have start: "rotationInRange (rotation turningShip)"
    using twoPi_bounds
    by (simp add: turningShip_def playerShip_def rotationInRange_def jge_def jlt_def two_pi)
  have doubles: "isDouble (currentSpeed turningShip)" "isDouble (maxSpeed turningShip)"
    by (simp_all add: turningShip_def playerShip_def isDouble_numeral)
  have "isDouble (Fin (15 / 32))"
    using isDouble_fraction[of 15 5] by simp
  then have "fl (15 / 32) = Fin (15 / 32)"
    by (simp add: isDouble_def fl_exact)
  then have rate: "changeRate turningShip (Fin (1 / 64)) = Fin (15 / 32)"
    by (simp add: changeRate_def turningShip_def playerShip_def fl_numeral)
  then have defined: "changeRate turningShip (Fin (1 / 64)) \<noteq> NaN" by simp
  have "\<bar>rnd (15 / 100)\<bar> \<le> 1" by (rule rnd_unit) simp
  then have helm: "magnitudeAtMost (rotationSpeed turningShip) (2 ^ 20)"
    by (simp add: turningShip_def playerShip_def lit_unit magnitudeAtMost_def)
  have frame: "magnitudeAtMost (Fin (1 / 64)) (2 ^ 20)"
    by (simp add: magnitudeAtMost_def)
  have top: "maxSpeed turningShip = Fin 60"
    by (simp add: turningShip_def playerShip_def)
  then have moving: "\<not> (maxSpeed turningShip = Fin 0
      \<and> currentSpeed (updateSpeed turningShip (Fin (1 / 64))) = Fin 0)"
    by simp
  from update_rotation_in_range[OF start doubles defined helm frame moving]
    start doubles rate helm frame top
  show ?thesis by simp
qed

end
